theory Spec2Isabelle
  imports Main "HOL-Library.Sublist" "HOL-Library.AList" "HOL-Library.Multiset"
    "HOL-Library.Code_Target_Nat"
begin

section \<open>Strings and the library boundary\<close>

text \<open>
  A Python \<open>str\<close> is a sequence of Unicode code points; it is modelled as a list of
  code points. \<open>str\<close> turns an ASCII literal into such a list.
\<close>

type_synonym pystr = "nat list"

definition str :: "string \<Rightarrow> pystr" where
  "str s = map of_char s"

text \<open>
  Everything the scraper takes from libraries (the HTML parser, \<open>urllib.parse\<close>,
  \<open>os.path.relpath\<close>, and the Unicode tables behind \<open>str.lower\<close>, \<open>str.strip\<close> and the
  regex classes) is a field of \<open>pylib\<close>. The Unicode fields are consulted for code points
  from 128 on only; on ASCII the classes are written out below.
  \<^item> \<open>soup_get_text html\<close> is \<open>BeautifulSoup(html, "html.parser").get_text(" ", strip=True)\<close>;
  \<^item> \<open>soup_anchors html\<close> lists, for every \<open>a\<close> element in document order, its
    \<open>href\<close> attribute (\<open>None\<close> when absent) and its \<open>get_text(" ", strip=True)\<close>;
  \<^item> \<open>soup_title html\<close> is \<open>soup.title.string\<close> (\<open>None\<close> when there is no title or no string);
  \<^item> \<open>soup_meta_robots html\<close> is \<open>None\<close> when there is no \<open>meta name=robots\<close> element,
    otherwise its \<open>content\<close> attribute (\<open>None\<close> when absent).
\<close>

record pylib =
  u_digit :: "nat \<Rightarrow> bool"
  u_space :: "nat \<Rightarrow> bool"
  u_word :: "nat \<Rightarrow> bool"
  u_lower :: "nat \<Rightarrow> pystr"
  soup_get_text :: "pystr \<Rightarrow> pystr"
  soup_anchors :: "pystr \<Rightarrow> (pystr option \<times> pystr) list"
  soup_title :: "pystr \<Rightarrow> pystr option"
  soup_meta_robots :: "pystr \<Rightarrow> pystr option option"
  urljoin :: "pystr \<Rightarrow> pystr \<Rightarrow> pystr"
  url_scheme :: "pystr \<Rightarrow> pystr"
  url_netloc :: "pystr \<Rightarrow> pystr"
  url_hostname :: "pystr \<Rightarrow> pystr option"
  url_path :: "pystr \<Rightarrow> pystr"
  os_relpath :: "pystr \<Rightarrow> pystr"

definition is_digit :: "pylib \<Rightarrow> nat \<Rightarrow> bool" where
  "is_digit L c = (if c < 128 then 48 \<le> c \<and> c \<le> 57 else u_digit L c)"

definition is_space :: "pylib \<Rightarrow> nat \<Rightarrow> bool" where
  "is_space L c = (if c < 128 then (9 \<le> c \<and> c \<le> 13) \<or> (28 \<le> c \<and> c \<le> 32) else u_space L c)"

definition is_word :: "pylib \<Rightarrow> nat \<Rightarrow> bool" where
  "is_word L c =
     (if c < 128
      then (48 \<le> c \<and> c \<le> 57) \<or> (65 \<le> c \<and> c \<le> 90) \<or> (97 \<le> c \<and> c \<le> 122) \<or> c = 95
      else u_word L c)"

definition lower_cp :: "pylib \<Rightarrow> nat \<Rightarrow> pystr" where
  "lower_cp L c = (if c < 128 then [if 65 \<le> c \<and> c \<le> 90 then c + 32 else c] else u_lower L c)"

definition py_lower :: "pylib \<Rightarrow> pystr \<Rightarrow> pystr" where
  "py_lower L s = concat (map (lower_cp L) s)"

definition py_strip :: "pylib \<Rightarrow> pystr \<Rightarrow> pystr" where
  "py_strip L s = rev (dropWhile (is_space L) (rev (dropWhile (is_space L) s)))"

text \<open>\<open>sub in s\<close>, \<open>s.startswith(p)\<close> and \<open>s.endswith(p)\<close>.\<close>

definition py_in :: "pystr \<Rightarrow> pystr \<Rightarrow> bool" where
  "py_in sub s = sublist sub s"

definition startswith :: "pystr \<Rightarrow> pystr \<Rightarrow> bool" where
  "startswith s p = prefix p s"

definition endswith :: "pystr \<Rightarrow> pystr \<Rightarrow> bool" where
  "endswith s p = suffix p s"

section \<open>The page classifier\<close>

subsection \<open>\<open>PRICE_RE\<close> and \<open>CURRENCY_RE\<close>\<close>

text \<open>
  \<open>PRICE_RE = \b(?:\$\s*)?\d{1,3}(?:[\.,]\d{2})?\b\<close>, matched the way Python's
  backtracking engine matches it. \<open>at_boundary\<close> is \<open>\b\<close>: exactly one of the code
  points before and after the position is a word character.
\<close>

definition word_at :: "pylib \<Rightarrow> pystr \<Rightarrow> nat \<Rightarrow> bool" where
  "word_at L s i = (i < length s \<and> is_word L (s ! i))"

definition at_boundary :: "pylib \<Rightarrow> pystr \<Rightarrow> nat \<Rightarrow> bool" where
  "at_boundary L s i = ((0 < i \<and> word_at L s (i - 1)) \<noteq> word_at L s i)"

definition digit_run :: "pylib \<Rightarrow> pystr \<Rightarrow> nat \<Rightarrow> nat" where
  "digit_run L s j = length (takeWhile (is_digit L) (drop j s))"

definition space_run :: "pylib \<Rightarrow> pystr \<Rightarrow> nat \<Rightarrow> nat" where
  "space_run L s j = length (takeWhile (is_space L) (drop j s))"

text \<open>\<open>[\.,]\d{2}\<close> at position \<open>p\<close>.\<close>

definition cents_at :: "pylib \<Rightarrow> pystr \<Rightarrow> nat \<Rightarrow> bool" where
  "cents_at L s p =
     (p + 2 < length s \<and> (s ! p = 46 \<or> s ! p = 44) \<and> is_digit L (s ! (p + 1)) \<and> is_digit L (s ! (p + 2)))"

text \<open>
  \<open>\d{1,3}(?:[\.,]\d{2})?\b\<close> from position \<open>j\<close>, where \<open>d\<close> digits are available: the greedy
  quantifier takes the longest run first and gives digits back one at a time; the optional
  group is tried before its omission. The result is the end of the match.
\<close>

primrec try_digits :: "pylib \<Rightarrow> pystr \<Rightarrow> nat \<Rightarrow> nat \<Rightarrow> nat option" where
  "try_digits L s j 0 = None"
| "try_digits L s j (Suc d) =
     (let p = j + Suc d in
      if cents_at L s p \<and> at_boundary L s (p + 3) then Some (p + 3)
      else if at_boundary L s p then Some p
      else try_digits L s j d)"

definition match_number :: "pylib \<Rightarrow> pystr \<Rightarrow> nat \<Rightarrow> nat option" where
  "match_number L s j = try_digits L s j (min 3 (digit_run L s j))"

text \<open>\<open>\s*\<close> after the dollar sign at \<open>j - 1\<close>: the longest run of spaces first.\<close>

primrec try_spaces :: "pylib \<Rightarrow> pystr \<Rightarrow> nat \<Rightarrow> nat \<Rightarrow> nat option" where
  "try_spaces L s j 0 = match_number L s j"
| "try_spaces L s j (Suc k) =
     (case match_number L s (j + Suc k) of
        Some e \<Rightarrow> Some e
      | None \<Rightarrow> try_spaces L s j k)"

definition price_match_at :: "pylib \<Rightarrow> pystr \<Rightarrow> nat \<Rightarrow> nat option" where
  "price_match_at L s i =
     (if \<not> at_boundary L s i then None
      else case (if i < length s \<and> s ! i = 36
                 then try_spaces L s (Suc i) (space_run L s (Suc i)) else None) of
             Some e \<Rightarrow> Some e
           | None \<Rightarrow> match_number L s i)"

text \<open>
  \<open>PRICE_RE.findall\<close>: the matches from left to right, each search resuming where the
  last match ended.
\<close>

function findall_from :: "pylib \<Rightarrow> pystr \<Rightarrow> nat \<Rightarrow> pystr list" where
  "findall_from L s i =
     (if length s < i then []
      else case price_match_at L s i of
             None \<Rightarrow> findall_from L s (Suc i)
           | Some e \<Rightarrow> take (e - i) (drop i s) # findall_from L s (if i < e then e else Suc i))"
  by pat_completeness auto
termination
  by (relation "measure (\<lambda>(L, s, i). Suc (length s) - i)") auto

definition PRICE_findall :: "pylib \<Rightarrow> pystr \<Rightarrow> pystr list" where
  "PRICE_findall L s = findall_from L s 0"

text \<open>\<open>CURRENCY_RE = [$\<pounds>\<euro>]\<close>: the dollar, pound (U+00A3) and euro (U+20AC) signs.\<close>

definition CURRENCY_findall :: "pystr \<Rightarrow> pystr" where
  "CURRENCY_findall s = filter (\<lambda>c. c = 36 \<or> c = 163 \<or> c = 8364) s"

definition CATEGORY_KEYWORDS :: "pystr list" where
  "CATEGORY_KEYWORDS = map str
     [''appetizer'', ''appetizers'', ''starters'', ''sides'', ''entrees'', ''mains'', ''main'', ''pasta'',
      ''pizzas'', ''pizza'', ''desserts'', ''brunch'', ''lunch'', ''dinner'', ''drinks'', ''beverages'',
      ''beverage'', ''wine'', ''cocktails'', ''beer'', ''kids'', ''salads'', ''soup'', ''soups'']"

subsection \<open>\<open>is_menu_like\<close>\<close>

definition price_hits :: "pylib \<Rightarrow> pystr \<Rightarrow> nat" where
  "price_hits L txt = length (PRICE_findall L txt)"

definition currency_hits :: "pystr \<Rightarrow> nat" where
  "currency_hits txt = length (CURRENCY_findall txt)"

definition cat_hits :: "pylib \<Rightarrow> pystr \<Rightarrow> nat" where
  "cat_hits L txt = length (filter (\<lambda>kw. py_in kw (py_lower L txt)) CATEGORY_KEYWORDS)"

definition is_menu_like :: "pylib \<Rightarrow> pystr \<Rightarrow> bool" where
  "is_menu_like L html =
     (let txt = soup_get_text L html in
      if 3 \<le> price_hits L txt then True
      else if 2 \<le> currency_hits txt then True
      else if 1 \<le> price_hits L txt \<and> 3 \<le> cat_hits L txt then True
      else False)"

section \<open>Link scoring and candidate generation\<close>

record MenuPage =
  mp_url :: pystr
  mp_label :: pystr
  mp_score :: int
  mp_content_type :: "pystr option"
  mp_status_code :: "int option"
  mp_is_menu_like :: "bool option"
  mp_guessed :: bool

definition POSITIVE_MENU_HINTS :: "pystr list" where
  "POSITIVE_MENU_HINTS = map str
     [''menu'', ''menus'', ''our menu'', ''food'', ''order'', ''order online'',
      ''lunch'', ''dinner'', ''brunch'', ''drinks'', ''beverages'', ''happy hour'']"

definition NEGATIVE_HINTS :: "pystr list" where
  "NEGATIVE_HINTS = map str
     [''reservations'', ''reservation'', ''gift'', ''careers'', ''jobs'', ''press'',
      ''gallery'', ''photos'', ''contact'', ''privacy'', ''terms'', ''accessibility'']"

definition EXTERNAL_MENU_HOSTS :: "pystr list" where
  "EXTERNAL_MENU_HOSTS = map str
     [''toasttab.com'', ''clover.com'', ''square.site'', ''ubereats.com'', ''doordash.com'',
      ''grubhub.com'', ''opentable.com'', ''resy.com'', ''tock.com'', ''olo.com'']"

definition COMMON_MENU_PATHS :: "pystr list" where
  "COMMON_MENU_PATHS = map str
     [''/menu'', ''/menus'', ''/our-menu'', ''/our-menus'', ''/food-menu'', ''/food-menus'',
      ''/dinner-menu'', ''/lunch-menu'', ''/brunch-menu'', ''/breakfast-menu'', ''/kids-menu'',
      ''/kid-menu'', ''/kids'', ''/drinks-menu'', ''/drink-menu'', ''/beverages-menu'',
      ''/beverage-menu'', ''/wine-menu'', ''/dessert-menu'', ''/specials'', ''/daily-specials'',
      ''/today-specials'', ''/buffet-menu'', ''/takeaway-menu'', ''/take-out-menu'',
      ''/delivery-menu'', ''/order-online/menu'', ''/order/menu'',
      ''/menu.html'', ''/menus.html'', ''/our-menu.html'', ''/food-menu.html'',
      ''/lunch-menu.html'', ''/dinner-menu.html'',
      ''/menu.pdf'', ''/menus.pdf'', ''/our-menu.pdf'', ''/food-menu.pdf'', ''/dinner-menu.pdf'',
      ''/lunch-menu.pdf'', ''/brunch-menu.pdf'', ''/breakfast-menu.pdf'', ''/kids-menu.pdf'',
      ''/drinks-menu.pdf'', ''/drink-menu.pdf'', ''/takeaway-menu.pdf'', ''/take-out-menu.pdf'',
      ''/dessert-menu.pdf'', ''/wine-menu.pdf'', ''/specials.pdf'', ''/buffet-menu.pdf'',
      ''/wp-content/uploads/menu.pdf'', ''/wp-content/uploads/menus.pdf'',
      ''/wp-content/uploads/2023/menu.pdf'', ''/wp-content/uploads/2024/menu.pdf'',
      ''/wp-content/uploads/2022/menu.pdf'', ''/files/menu.pdf'', ''/uploads/menu.pdf'',
      ''/download/menu.pdf'', ''/documents/menu.pdf'', ''/docs/menu.pdf'',
      ''/menu/dinner'', ''/menu/lunch'', ''/menu/brunch'', ''/menu/breakfast'', ''/menu/drinks'',
      ''/menu/beverages'', ''/menu/kids'', ''/menu/dessert'', ''/menu/specials'',
      ''/restaurant-menu'', ''/the-menu'', ''/menus-list'', ''/full-menu'', ''/complete-menu'',
      ''/menu-card'', ''/menu-list'', ''/food'', ''/eat'', ''/order'', ''/order-online'']"

definition host_matches_external :: "pylib \<Rightarrow> pystr \<Rightarrow> bool" where
  "host_matches_external L host =
     (let host = py_lower L host in
      list_ex (\<lambda>dom. host = dom \<or> endswith host (str ''.'' @ dom)) EXTERNAL_MENU_HOSTS)"

text \<open>
  \<open>score_link\<close>: the two keyword loops add up, in any order, one term per keyword; then
  the URL pattern and the PDF bonus.
\<close>

definition score_link :: "pylib \<Rightarrow> pystr \<Rightarrow> pystr \<Rightarrow> int" where
  "score_link L text_arg href =
     (let t = py_lower L (py_strip L text_arg);
          h = py_lower L (py_strip L href)
      in (\<Sum>kw\<leftarrow>POSITIVE_MENU_HINTS.
             if py_in kw t \<or> py_in kw h then (if py_in (str ''menu'') kw then 3 else 2) else 0)
       - (\<Sum>bad\<leftarrow>NEGATIVE_HINTS. if py_in bad t \<or> py_in bad h then 3 else 0)
       + (if list_ex (\<lambda>p. py_in p h)
               (map str [''/menu'', ''/menus'', ''food-menu'', ''our-menu'', ''menu.html''])
          then 3 else 0)
       + (if endswith h (str ''.pdf'') then 4 else 0))"

text \<open>
  The score \<open>discover_menu_links\<close> gives an anchor: \<open>score_link\<close> plus 6 when the resolved
  host is an external menu host.
\<close>

definition anchor_score :: "pylib \<Rightarrow> pystr \<Rightarrow> pystr \<Rightarrow> pystr \<Rightarrow> int" where
  "anchor_score L base_url href text_arg =
     (let s = score_link L text_arg href;
          host = (case url_hostname L (urljoin L base_url href) of None \<Rightarrow> [] | Some h \<Rightarrow> h)
      in if host_matches_external L host then s + 6 else s)"

definition link_page :: "pylib \<Rightarrow> pystr \<Rightarrow> pystr \<Rightarrow> pystr \<Rightarrow> MenuPage" where
  "link_page L base_url href text_arg =
     \<lparr> mp_url = urljoin L base_url href,
       mp_label = take 60 (py_lower L (if text_arg = [] then str ''menu'' else text_arg)),
       mp_score = anchor_score L base_url href text_arg,
       mp_content_type = None, mp_status_code = None, mp_is_menu_like = None,
       mp_guessed = False \<rparr>"

text \<open>
  The loop over the anchors. \<open>candidates\<close> is the dictionary from absolute URL to page, in
  insertion order: \<open>AList.update\<close> overwrites a key in place and appends a new key.
\<close>

fun collect_links ::
  "pylib \<Rightarrow> pystr \<Rightarrow> (pystr option \<times> pystr) list \<Rightarrow> (pystr \<times> MenuPage) list \<Rightarrow> (pystr \<times> MenuPage) list"
where
  "collect_links L base_url [] candidates = candidates"
| "collect_links L base_url ((href_opt, raw) # rest) candidates =
     (case href_opt of
        None \<Rightarrow> collect_links L base_url rest candidates
      | Some href \<Rightarrow>
          if href = [] then collect_links L base_url rest candidates
          else
            let abs_url = urljoin L base_url href;
                text_arg = take 200 raw;
                s = anchor_score L base_url href text_arg
            in if s \<le> 0 then collect_links L base_url rest candidates
               else if (case map_of candidates abs_url of
                          None \<Rightarrow> True
                        | Some old \<Rightarrow> mp_score old < s)
               then collect_links L base_url rest
                      (AList.update abs_url (link_page L base_url href text_arg) candidates)
               else collect_links L base_url rest candidates)"

definition homepage_page :: "pystr \<Rightarrow> MenuPage" where
  "homepage_page base_url =
     \<lparr> mp_url = base_url, mp_label = str ''menu'', mp_score = 5,
       mp_content_type = None, mp_status_code = None, mp_is_menu_like = None,
       mp_guessed = False \<rparr>"

text \<open>The dictionary at the end of \<open>discover_menu_links\<close>, before sorting.\<close>

definition discovered :: "pylib \<Rightarrow> pystr \<Rightarrow> pystr \<Rightarrow> (pystr \<times> MenuPage) list" where
  "discovered L base_url html =
     (let candidates = collect_links L base_url (soup_anchors L html) []
      in if is_menu_like L html
         then AList.update base_url (homepage_page base_url) candidates
         else candidates)"

text \<open>
  \<open>sorted(..., key=score, reverse=True)[:12]\<close>: Python's sort is stable, also when
  reversed, and so is \<open>sort_key\<close> on the negated score.
\<close>

definition discover_menu_links :: "pylib \<Rightarrow> pystr \<Rightarrow> pystr \<Rightarrow> MenuPage list" where
  "discover_menu_links L base_url html =
     take 12 (sort_key (\<lambda>m. - mp_score m) (map snd (discovered L base_url html)))"

definition strip_char :: "nat \<Rightarrow> pystr \<Rightarrow> pystr" where
  "strip_char c s = rev (dropWhile (\<lambda>x. x = c) (rev (dropWhile (\<lambda>x. x = c) s)))"

definition build_guessed_menu_pages :: "pylib \<Rightarrow> pystr \<Rightarrow> MenuPage list" where
  "build_guessed_menu_pages L base_url =
     (let root = url_scheme L base_url @ str ''://'' @ url_netloc L base_url
      in map (\<lambda>path.
           let url = urljoin L (root @ str ''/'') (dropWhile (\<lambda>x. x = 47) path);
               label = map (\<lambda>c. if c = 45 then 32 else c) (strip_char 47 path);
               label = (if label = [] then str ''menu'' else label)
           in \<lparr> mp_url = url, mp_label = take 60 label, mp_score = 8,
                mp_content_type = None, mp_status_code = None, mp_is_menu_like = None,
                mp_guessed = True \<rparr>) COMMON_MENU_PATHS)"

definition looks_like_error_page :: "pylib \<Rightarrow> pystr \<Rightarrow> int option \<Rightarrow> bool" where
  "looks_like_error_page L html status_code =
     (if (case status_code of None \<Rightarrow> False | Some c \<Rightarrow> 400 \<le> c) then True
      else
        let title = (case soup_title L html of
                       None \<Rightarrow> []
                     | Some t \<Rightarrow> if t = [] then [] else py_lower L (py_strip L t))
        in if list_ex (\<lambda>x. py_in x title)
                (map str [''404'', ''page not found'', ''not found'', ''error''])
           then True
           else
             let robots_content =
                   (case soup_meta_robots L html of
                      None \<Rightarrow> []
                    | Some c \<Rightarrow> py_lower L (case c of None \<Rightarrow> [] | Some v \<Rightarrow> v));
                 txt = py_lower L (soup_get_text L html)
             in if py_in (str ''noindex'') robots_content \<and>
                   list_ex (\<lambda>phrase. py_in phrase txt)
                     (map str [''page does not exist'', ''page not found'',
                               ''this page does not exist'', ''oops''])
                then True
                else False)"

text \<open>
  \<open>re.sub(r"[^a-z0-9]+", "-", label)\<close>: every maximal run of other code points becomes
  one hyphen. The flag says that the run has already been replaced.
\<close>

fun sub_runs :: "bool \<Rightarrow> pystr \<Rightarrow> pystr" where
  "sub_runs in_run [] = []"
| "sub_runs in_run (c # cs) =
     (if (97 \<le> c \<and> c \<le> 122) \<or> (48 \<le> c \<and> c \<le> 57) then c # sub_runs False cs
      else if in_run then sub_runs True cs
      else 45 # sub_runs True cs)"

definition sanitize_label :: "pylib \<Rightarrow> pystr \<Rightarrow> pystr" where
  "sanitize_label L label =
     (let label = py_strip L (py_lower L label);
          label = (if label = [] then str ''menu'' else label);
          label = strip_char 45 (sub_runs False label);
          label = (if label = [] then str ''menu'' else label)
      in take 60 label)"

section \<open>Restaurants, results and the output directory\<close>

record Restaurant =
  r_uuid :: pystr
  r_slug :: pystr
  r_name :: pystr
  r_website :: "pystr option"

text \<open>
  The values a result dictionary and \<open>metadata.json\<close> hold, as \<open>json.load\<close> returns them
  (numbers other than integers are left out). \<open>truthy\<close> is Python's truth value.
\<close>

datatype json =
  JNull
| JBool bool
| JInt int
| JStr pystr
| JList "json list"
| JObj "(pystr \<times> json) list"

fun truthy :: "json \<Rightarrow> bool" where
  "truthy JNull = False"
| "truthy (JBool b) = b"
| "truthy (JInt n) = (n \<noteq> 0)"
| "truthy (JStr s) = (s \<noteq> [])"
| "truthy (JList xs) = (xs \<noteq> [])"
| "truthy (JObj kvs) = (kvs \<noteq> [])"

text \<open>\<open>d.get(key, default)\<close> on the pairs of an object.\<close>

definition dict_get :: "(pystr \<times> json) list \<Rightarrow> pystr \<Rightarrow> json \<Rightarrow> json" where
  "dict_get kvs key dflt = (case map_of kvs key of None \<Rightarrow> dflt | Some v \<Rightarrow> v)"

definition json_opt_str :: "pystr option \<Rightarrow> json" where
  "json_opt_str v = (case v of None \<Rightarrow> JNull | Some s \<Rightarrow> JStr s)"

definition json_opt_int :: "int option \<Rightarrow> json" where
  "json_opt_int v = (case v of None \<Rightarrow> JNull | Some n \<Rightarrow> JInt n)"

text \<open>
  The result dictionary of \<open>process_restaurant\<close>. On a fresh run the values are those of
  the restaurant; on a resumed run they come from \<open>metadata.json\<close> and can be any JSON
  value. \<open>res_skipped\<close> is \<open>False\<close> when the dictionary has no key \<open>skipped\<close>.
\<close>

record site_result =
  res_uuid :: json
  res_slug :: pystr
  res_name :: json
  res_website :: json
  res_found :: bool
  res_saved_files :: json
  res_errors :: "json list"
  res_skipped :: bool

text \<open>
  The file system under the output root: a path is absent, something that is not a
  directory, or a directory, whose entries \<open>os.listdir\<close> yields in the order of the list.
  A file that parses as JSON is a \<open>JsonDoc\<close>; any other content is \<open>Data\<close>.
\<close>

datatype fcontent = JsonDoc json | Data pystr

datatype dentry = RegFile fcontent | SubDir

datatype fsnode = Directory "(pystr \<times> dentry) list" | NotDir

type_synonym filesystem = "pystr \<Rightarrow> fsnode option"

text \<open>\<open>os.path.join\<close>, \<open>os.path.basename\<close> and the extension of \<open>os.path.splitext\<close> (POSIX).\<close>

definition path_join :: "pystr \<Rightarrow> pystr \<Rightarrow> pystr" where
  "path_join a b =
     (if startswith b (str ''/'') then b
      else if a = [] \<or> endswith a (str ''/'') then a @ b
      else a @ str ''/'' @ b)"

definition path_basename :: "pystr \<Rightarrow> pystr" where
  "path_basename p = rev (takeWhile (\<lambda>c. c \<noteq> 47) (rev p))"

definition splitext_ext :: "pystr \<Rightarrow> pystr" where
  "splitext_ext p =
     (let b = path_basename p;
          e = rev (takeWhile (\<lambda>c. c \<noteq> 46) (rev b));
          stem = take (length b - length e - 1) b
      in if 46 \<in> set b \<and> filter (\<lambda>c. c \<noteq> 46) stem \<noteq> [] then 46 # e else [])"

definition restaurant_output_dir :: "pystr \<Rightarrow> Restaurant \<Rightarrow> pystr \<times> pystr" where
  "restaurant_output_dir out_root r =
     (let slug_unique = (if r_uuid r \<noteq> [] then r_slug r @ str ''--'' @ take 8 (r_uuid r)
                         else r_slug r)
      in (path_join out_root slug_unique, slug_unique))"

subsection \<open>\<open>existing_menu_info\<close>\<close>

text \<open>
  The \<open>try\<close> block over \<open>metadata.json\<close>: \<open>None\<close> when the block raises (the file does not
  parse, the value is not an object, \<open>errors\<close> is not a list) or when \<open>saved_files\<close> is
  missing or falsy; in both cases the directory scan follows.
\<close>

definition result_from_metadata :: "Restaurant \<Rightarrow> pystr \<Rightarrow> fcontent \<Rightarrow> site_result option" where
  "result_from_metadata r slug_unique c =
     (case c of
        Data d \<Rightarrow> None
      | JsonDoc meta \<Rightarrow>
          (case meta of
             JObj kvs \<Rightarrow>
               (let v = dict_get kvs (str ''saved_files'') JNull;
                    saved_files = (if truthy v then v else JList [])
                in if truthy saved_files
                   then (case dict_get kvs (str ''errors'') (JList []) of
                           JList errs \<Rightarrow>
                             Some \<lparr> res_uuid = dict_get kvs (str ''uuid'') (JStr (r_uuid r)),
                                    res_slug = slug_unique,
                                    res_name = dict_get kvs (str ''name'') (JStr (r_name r)),
                                    res_website = dict_get kvs (str ''website'') (json_opt_str (r_website r)),
                                    res_found = True,
                                    res_saved_files = saved_files,
                                    res_errors = errs @ [JStr (str ''skipped_existing_menu'')],
                                    res_skipped = True \<rparr>
                         | _ \<Rightarrow> None)
                   else None)
           | _ \<Rightarrow> None))"

definition is_regfile :: "(pystr \<times> dentry) list \<Rightarrow> pystr \<Rightarrow> bool" where
  "is_regfile entries fn = (case map_of entries fn of Some (RegFile c) \<Rightarrow> True | _ \<Rightarrow> False)"

definition scanned_entry :: "pylib \<Rightarrow> pystr \<Rightarrow> pystr \<Rightarrow> json" where
  "scanned_entry L out_dir fn =
     JObj [(str ''url'', JNull),
           (str ''file'', JStr (os_relpath L (path_join out_dir fn))),
           (str ''status'', JNull),
           (str ''content_type'', JNull),
           (str ''is_menu_like'', JBool True)]"

definition menu_extension :: "pylib \<Rightarrow> pystr \<Rightarrow> bool" where
  "menu_extension L fn =
     (let ext = py_lower L (splitext_ext fn)
      in ext = str ''.html'' \<or> ext = str ''.htm'' \<or> ext = str ''.pdf'')"

definition scan_directory :: "pylib \<Rightarrow> pystr \<Rightarrow> (pystr \<times> dentry) list \<Rightarrow> json list" where
  "scan_directory L out_dir entries =
     map (scanned_entry L out_dir)
       (filter (\<lambda>fn. fn \<noteq> str ''metadata.json'' \<and> is_regfile entries fn \<and> menu_extension L fn)
          (map fst entries))"

definition existing_menu_info :: "pylib \<Rightarrow> filesystem \<Rightarrow> pystr \<Rightarrow> Restaurant \<Rightarrow> site_result option" where
  "existing_menu_info L fs out_root r =
     (let (out_dir, slug_unique) = restaurant_output_dir out_root r
      in case fs out_dir of
           None \<Rightarrow> None
         | Some NotDir \<Rightarrow> None
         | Some (Directory entries) \<Rightarrow>
             (case (case map_of entries (str ''metadata.json'') of
                      Some (RegFile c) \<Rightarrow> result_from_metadata r slug_unique c
                    | _ \<Rightarrow> None) of
                Some meta_result \<Rightarrow> Some meta_result
              | None \<Rightarrow>
                  (let saved_files = scan_directory L out_dir entries
                   in if saved_files \<noteq> []
                      then Some \<lparr> res_uuid = JStr (r_uuid r),
                                  res_slug = slug_unique,
                                  res_name = JStr (r_name r),
                                  res_website = json_opt_str (r_website r),
                                  res_found = True,
                                  res_saved_files = JList saved_files,
                                  res_errors = [JStr (str ''skipped_existing_menu_no_meta'')],
                                  res_skipped = True \<rparr>
                      else None)))"

section \<open>The network and the site processor\<close>

text \<open>
  A \<open>RobotFileParser\<close> is modelled by what it answers to \<open>can_fetch(USER_AGENT, url)\<close>.
  The environment of a run:
  \<^item> \<open>http_get n url\<close> is the outcome of \<open>client.get(url)\<close> when it is the \<open>n\<close>-th request
    issued so far: an exception (with its text) or a response;
  \<^item> \<open>robots_parse txt\<close> is the parser after \<open>parse\<close> on the lines of \<open>txt\<close>;
  \<^item> \<open>write_error path\<close> is the text of the exception that opening and writing \<open>path\<close>
    raises, \<open>None\<close> when the write succeeds; a failed write leaves the file system as it was;
  \<^item> \<open>makedirs_error path\<close> says that \<open>os.makedirs\<close> fails on \<open>path\<close>;
  \<^item> \<open>clock_iso\<close> is what \<open>now_iso()\<close> returns.
\<close>

type_synonym robots = "pystr \<Rightarrow> bool"

record http_response =
  status_code :: int
  content_type_header :: "pystr option"
  body_text :: pystr
  body_content :: pystr

record netenv =
  http_get :: "nat \<Rightarrow> pystr \<Rightarrow> pystr + http_response"
  robots_parse :: "pystr \<Rightarrow> robots"
  write_error :: "pystr \<Rightarrow> pystr option"
  makedirs_error :: "pystr \<Rightarrow> bool"
  clock_iso :: pystr

text \<open>
  What a run reads and changes: the file system and the robots cache shared by the run.
  Two logs record the effects in the order they happen: the URLs requested from the
  network, and the files written (directory and file name of every successful write).
\<close>

record world =
  w_fs :: filesystem
  w_rp_cache :: "pystr \<Rightarrow> robots option"
  w_requests :: "pystr list"
  w_writes :: "(pystr \<times> pystr) list"

datatype py_exception = FileExistsError | OSError

definition client_get :: "netenv \<Rightarrow> world \<Rightarrow> pystr \<Rightarrow> (pystr + http_response) \<times> world" where
  "client_get E w url =
     (http_get E (length (w_requests w)) url, w\<lparr> w_requests := w_requests w @ [url] \<rparr>)"

definition normalize_url :: "pylib \<Rightarrow> pystr \<Rightarrow> pystr" where
  "normalize_url L url =
     (if url = [] then url
      else if url_scheme L url = [] then str ''https://'' @ url
      else url)"

definition fetch_robots :: "pylib \<Rightarrow> netenv \<Rightarrow> world \<Rightarrow> pystr \<Rightarrow> robots \<times> world" where
  "fetch_robots L E w base_url =
     (let host = (case url_hostname L base_url of None \<Rightarrow> [] | Some h \<Rightarrow> h)
      in case w_rp_cache w host of
           Some rp \<Rightarrow> (rp, w)
         | None \<Rightarrow>
             (let robots_url = url_scheme L base_url @ str ''://'' @ host @ str ''/robots.txt'';
                  (resp, w') = client_get E w robots_url;
                  rp = (case resp of
                          Inl e \<Rightarrow> robots_parse E []
                        | Inr r \<Rightarrow> if status_code r = 200 then robots_parse E (body_text r)
                                   else robots_parse E [])
              in (rp, w'\<lparr> w_rp_cache := (w_rp_cache w')(host \<mapsto> rp) \<rparr>)))"

definition fetch_text ::
  "pylib \<Rightarrow> netenv \<Rightarrow> world \<Rightarrow> pystr \<Rightarrow> (pystr option \<times> pystr option \<times> int option) \<times> world"
where
  "fetch_text L E w url =
     (let (resp, w') = client_get E w url
      in case resp of
           Inl e \<Rightarrow> ((None, None, None), w')
         | Inr r \<Rightarrow>
             (let header = (case content_type_header r of None \<Rightarrow> [] | Some h \<Rightarrow> h);
                  ctype = py_lower L (py_strip L (takeWhile (\<lambda>c. c \<noteq> 59) header))
              in if py_in (str ''text/html'') ctype \<or> ctype = str ''application/xhtml+xml'' \<or> ctype = []
                 then ((Some (body_text r), Some (if ctype = [] then str ''text/html'' else ctype),
                        Some (status_code r)), w')
                 else ((None, Some ctype, Some (status_code r)), w')))"

definition ensure_dir :: "netenv \<Rightarrow> world \<Rightarrow> pystr \<Rightarrow> py_exception + world" where
  "ensure_dir E w path =
     (if makedirs_error E path then Inl OSError
      else case w_fs w path of
             Some (Directory entries) \<Rightarrow> Inr w
           | Some NotDir \<Rightarrow> Inl FileExistsError
           | None \<Rightarrow> Inr (w\<lparr> w_fs := (w_fs w)(path \<mapsto> Directory []) \<rparr>))"

text \<open>
  \<open>with open(os.path.join(out_dir, filename), "w") as f: ...\<close>: the exception text, or
  the world with the file written.
\<close>

definition write_file :: "netenv \<Rightarrow> world \<Rightarrow> pystr \<Rightarrow> pystr \<Rightarrow> fcontent \<Rightarrow> pystr + world" where
  "write_file E w out_dir filename c =
     (case write_error E (path_join out_dir filename) of
        Some msg \<Rightarrow> Inl msg
      | None \<Rightarrow>
          (case w_fs w out_dir of
             Some (Directory entries) \<Rightarrow>
               Inr (w\<lparr> w_fs := (w_fs w)(out_dir \<mapsto>
                         Directory (AList.update filename (RegFile c) entries)),
                       w_writes := w_writes w @ [(out_dir, filename)] \<rparr>)
           | _ \<Rightarrow> Inl (str ''No such file or directory'')))"

text \<open>\<open>str()\<close> of an integer, and of the optional values the error tags format.\<close>

function dec_nat :: "nat \<Rightarrow> pystr" where
  "dec_nat n = (if n < 10 then [48 + n] else dec_nat (n div 10) @ [48 + n mod 10])"
  by pat_completeness auto
termination
  by (relation "measure (\<lambda>n. n)") auto

definition str_int :: "int \<Rightarrow> pystr" where
  "str_int i = (if i < 0 then 45 # dec_nat (nat (- i)) else dec_nat (nat i))"

definition fmt_opt_int :: "int option \<Rightarrow> pystr" where
  "fmt_opt_int v = (case v of None \<Rightarrow> str ''None'' | Some i \<Rightarrow> str_int i)"

definition fmt_opt_str :: "pystr option \<Rightarrow> pystr" where
  "fmt_opt_str v = (case v of None \<Rightarrow> str ''None'' | Some s \<Rightarrow> s)"

definition metadata_doc ::
  "Restaurant \<Rightarrow> pystr \<Rightarrow> pystr \<Rightarrow> bool \<Rightarrow> json list \<Rightarrow> pystr list \<Rightarrow> fcontent"
where
  "metadata_doc r base_url stamp found saved_files errors =
     JsonDoc (JObj [(str ''uuid'', JStr (r_uuid r)),
                    (str ''name'', JStr (r_name r)),
                    (str ''website'', JStr base_url),
                    (str ''timestamp'', JStr stamp),
                    (str ''found'', JBool found),
                    (str ''saved_files'', JList saved_files),
                    (str ''errors'', JList (map JStr errors))])"

text \<open>The locals of the candidate loop, with the world.\<close>

record scrape =
  sc_saved_files :: "json list"
  sc_errors :: "pystr list"
  sc_saved :: int
  sc_seen_urls :: "pystr set"
  sc_world :: world

definition is_pdf_ctype :: "pystr option \<Rightarrow> bool" where
  "is_pdf_ctype ctype2 =
     (case ctype2 of
        None \<Rightarrow> False
      | Some c \<Rightarrow> c = str ''application/pdf'' \<or> (c \<noteq> [] \<and> py_in (str ''pdf'') c))"

text \<open>The file label: the sanitized link label, or the last path segment when that is \<open>menu\<close>.\<close>

definition file_label :: "pylib \<Rightarrow> MenuPage \<Rightarrow> pystr" where
  "file_label L mp =
     (let label = sanitize_label L (if mp_label mp = [] then str ''menu'' else mp_label mp)
      in if label = str ''menu''
         then (let tail = path_basename (url_path L (mp_url mp));
                   tail = sanitize_label L (if tail = [] then str ''menu'' else tail)
               in if tail \<noteq> [] \<and> tail \<noteq> str ''menu'' then tail else label)
         else label)"

definition path_implies_menu :: "pylib \<Rightarrow> pystr \<Rightarrow> bool" where
  "path_implies_menu L url =
     (let path = py_lower L (url_path L url);
          base_name = path_basename path;
          ends_menu = (endswith path (str ''/menu'') \<or> endswith path (str ''/menus''));
          base_is_menu = (base_name = str ''menu'' \<or> base_name = str ''menus'' \<or>
                          startswith base_name (str ''menu-'') \<or> startswith base_name (str ''menus-''))
      in ends_menu \<or> base_is_menu)"

definition saved_entry :: "pylib \<Rightarrow> pystr \<Rightarrow> pystr \<Rightarrow> int option \<Rightarrow> pystr option \<Rightarrow> bool \<Rightarrow> json" where
  "saved_entry L url save_path status2 ctype2 menu_like =
     JObj [(str ''url'', JStr url),
           (str ''file'', JStr (os_relpath L save_path)),
           (str ''status'', json_opt_int status2),
           (str ''content_type'', json_opt_str ctype2),
           (str ''is_menu_like'', JBool menu_like)]"

text \<open>The PDF branch of the loop body.\<close>

definition save_pdf ::
  "pylib \<Rightarrow> netenv \<Rightarrow> pystr \<Rightarrow> MenuPage \<Rightarrow> int option \<Rightarrow> pystr option \<Rightarrow> scrape \<Rightarrow> scrape"
where
  "save_pdf L E out_dir mp status2 ctype2 sc =
     (let filename = file_label L mp @ str ''.pdf'';
          save_path = path_join out_dir filename;
          (pdf_resp, w) = client_get E (sc_world sc) (mp_url mp)
      in case (case pdf_resp of
                 Inl e \<Rightarrow> Inl e
               | Inr resp \<Rightarrow> write_file E w out_dir filename (Data (body_content resp))) of
           Inl e \<Rightarrow>
             sc\<lparr> sc_world := w,
                 sc_errors := sc_errors sc @ [str ''write_failed_pdf:'' @ mp_url mp @ str '':'' @ e] \<rparr>
         | Inr w' \<Rightarrow>
             sc\<lparr> sc_world := w',
                 sc_saved_files := sc_saved_files sc @
                   [saved_entry L (mp_url mp) save_path status2 ctype2 True],
                 sc_saved := sc_saved sc + 1 \<rparr>)"

text \<open>The end of the loop body: an accepted page is written as the fetched text.\<close>

definition save_html ::
  "pylib \<Rightarrow> netenv \<Rightarrow> pystr \<Rightarrow> MenuPage \<Rightarrow> pystr \<Rightarrow> int option \<Rightarrow> pystr option \<Rightarrow> bool \<Rightarrow> scrape \<Rightarrow> scrape"
where
  "save_html L E out_dir mp body status2 ctype2 menu_like sc =
     (let filename = file_label L mp @ str ''.html'';
          save_path = path_join out_dir filename
      in case write_file E (sc_world sc) out_dir filename (Data body) of
           Inl e \<Rightarrow>
             sc\<lparr> sc_errors := sc_errors sc @ [str ''write_failed:'' @ mp_url mp @ str '':'' @ e] \<rparr>
         | Inr w' \<Rightarrow>
             sc\<lparr> sc_world := w',
                 sc_saved_files := sc_saved_files sc @
                   [saved_entry L (mp_url mp) save_path status2 ctype2 menu_like],
                 sc_saved := sc_saved sc + 1 \<rparr>)"

text \<open>
  The non-PDF part of the loop body, once the page is fetched: the error checks, the
  classification and the gate.
\<close>

definition classify_and_save ::
  "pylib \<Rightarrow> netenv \<Rightarrow> pystr \<Rightarrow> MenuPage \<Rightarrow> pystr option \<Rightarrow> int option \<Rightarrow> pystr option \<Rightarrow> scrape \<Rightarrow> scrape"
where
  "classify_and_save L E out_dir mp body status2 ctype2 sc =
     (case body of
        None \<Rightarrow>
          sc\<lparr> sc_errors := sc_errors sc @
                [str ''fetch_failed:'' @ mp_url mp @ str '':'' @ fmt_opt_int status2 @ str '':'' @
                 fmt_opt_str ctype2] \<rparr>
      | Some b \<Rightarrow>
          if looks_like_error_page L b status2
          then sc\<lparr> sc_errors := sc_errors sc @
                     [str ''error_page:'' @ mp_url mp @ str '':'' @ fmt_opt_int status2] \<rparr>
          else
            let host = (case url_hostname L (mp_url mp) of None \<Rightarrow> [] | Some h \<Rightarrow> h);
                is_external_menu_host = host_matches_external L host;
                menu_like = is_menu_like L b
            in if \<not> menu_like \<and> \<not> is_external_menu_host
               then (if mp_guessed mp then sc
                     else if \<not> path_implies_menu L (mp_url mp) then sc
                     else save_html L E out_dir mp b status2 ctype2 menu_like sc)
               else if is_external_menu_host
               then save_html L E out_dir mp b status2 ctype2 True sc
               else save_html L E out_dir mp b status2 ctype2 menu_like sc)"

text \<open>One iteration of the loop over the candidates, after the budget test.\<close>

definition process_candidate :: "pylib \<Rightarrow> netenv \<Rightarrow> pystr \<Rightarrow> MenuPage \<Rightarrow> scrape \<Rightarrow> scrape" where
  "process_candidate L E out_dir mp sc =
     (if mp_url mp \<in> sc_seen_urls sc then sc
      else
        let sc = sc\<lparr> sc_seen_urls := insert (mp_url mp) (sc_seen_urls sc) \<rparr>;
            (rp_target, w) = fetch_robots L E (sc_world sc) (mp_url mp);
            sc = sc\<lparr> sc_world := w \<rparr>
        in if \<not> rp_target (mp_url mp)
           then sc\<lparr> sc_errors := sc_errors sc @ [str ''blocked_by_robots:'' @ mp_url mp] \<rparr>
           else
             let ((body, ctype2, status2), w) = fetch_text L E (sc_world sc) (mp_url mp);
                 sc = sc\<lparr> sc_world := w \<rparr>
             in if is_pdf_ctype ctype2 then save_pdf L E out_dir mp status2 ctype2 sc
                else classify_and_save L E out_dir mp body status2 ctype2 sc)"

fun candidates_loop ::
  "pylib \<Rightarrow> netenv \<Rightarrow> pystr \<Rightarrow> int \<Rightarrow> MenuPage list \<Rightarrow> scrape \<Rightarrow> scrape"
where
  "candidates_loop L E out_dir max_pages_per_site [] sc = sc"
| "candidates_loop L E out_dir max_pages_per_site (mp # rest) sc =
     (if max_pages_per_site \<le> sc_saved sc then sc
      else candidates_loop L E out_dir max_pages_per_site rest (process_candidate L E out_dir mp sc))"

text \<open>The metadata record written on the two early exits; a failed write is ignored.\<close>

definition write_early_metadata :: "netenv \<Rightarrow> world \<Rightarrow> pystr \<Rightarrow> Restaurant \<Rightarrow> pystr \<Rightarrow> pystr list \<Rightarrow> world" where
  "write_early_metadata E w out_dir r base_url errors =
     (case write_file E w out_dir (str ''metadata.json'')
             (metadata_doc r base_url (clock_iso E) False [] errors) of
        Inl e \<Rightarrow> w
      | Inr w' \<Rightarrow> w')"

definition fresh_result :: "Restaurant \<Rightarrow> bool \<Rightarrow> json list \<Rightarrow> pystr list \<Rightarrow> site_result" where
  "fresh_result r found saved_files errors =
     \<lparr> res_uuid = JStr (r_uuid r),
       res_slug = r_slug r,
       res_name = JStr (r_name r),
       res_website = json_opt_str (r_website r),
       res_found = found,
       res_saved_files = JList saved_files,
       res_errors = map JStr errors,
       res_skipped = False \<rparr>"

definition all_candidates :: "pylib \<Rightarrow> pystr \<Rightarrow> pystr \<Rightarrow> MenuPage list" where
  "all_candidates L base_url html =
     (let candidates = discover_menu_links L base_url html;
          guessed_candidates = build_guessed_menu_pages L base_url;
          existing_urls = set (map mp_url candidates)
      in candidates @ filter (\<lambda>mp. mp_url mp \<notin> existing_urls) guessed_candidates)"

text \<open>
  \<open>process_restaurant\<close> from the homepage fetch on: the candidate loop, the \<open>found\<close> flag
  and the final metadata record.
\<close>

definition scrape_site ::
  "pylib \<Rightarrow> netenv \<Rightarrow> pystr \<Rightarrow> Restaurant \<Rightarrow> pystr \<Rightarrow> int \<Rightarrow> pystr \<Rightarrow> world \<Rightarrow> site_result \<times> world"
where
  "scrape_site L E out_dir r base_url max_pages_per_site html w =
     (let sc = candidates_loop L E out_dir max_pages_per_site (all_candidates L base_url html)
                 \<lparr> sc_saved_files = [], sc_errors = [], sc_saved = 0,
                   sc_seen_urls = {}, sc_world = w \<rparr>;
          found = (0 < sc_saved sc)
      in case write_file E (sc_world sc) out_dir (str ''metadata.json'')
                (metadata_doc r base_url (clock_iso E) found (sc_saved_files sc) (sc_errors sc)) of
           Inl e \<Rightarrow>
             (fresh_result r found (sc_saved_files sc)
                (sc_errors sc @ [str ''meta_write_failed:'' @ e]),
              sc_world sc)
         | Inr w' \<Rightarrow> (fresh_result r found (sc_saved_files sc) (sc_errors sc), w'))"

definition process_restaurant ::
  "pylib \<Rightarrow> netenv \<Rightarrow> pystr \<Rightarrow> Restaurant \<Rightarrow> int \<Rightarrow> world \<Rightarrow> py_exception + (site_result \<times> world)"
where
  "process_restaurant L E out_root r max_pages_per_site w =
     (case existing_menu_info L (w_fs w) out_root r of
        Some existing \<Rightarrow> Inr (existing, w)
      | None \<Rightarrow>
          (case r_website r of
             None \<Rightarrow> Inr (fresh_result r False [] [str ''no_website''], w)
           | Some website \<Rightarrow>
           if website = [] then Inr (fresh_result r False [] [str ''no_website''], w)
           else
             let base_url = normalize_url L website;
                 (out_dir, slug_unique) = restaurant_output_dir out_root r
             in (case ensure_dir E w out_dir of
                   Inl exn \<Rightarrow> Inl exn
                 | Inr w \<Rightarrow>
                     (let (rp, w) = fetch_robots L E w base_url
                      in if \<not> rp base_url
                         then (let errors = [str ''blocked_by_robots_home'']
                               in Inr (fresh_result r False [] errors,
                                       write_early_metadata E w out_dir r base_url errors))
                         else
                           (let ((html, ctype, status), w) = fetch_text L E w base_url
                            in (case html of
                                  None \<Rightarrow>
                                    (let errors = [str ''homepage_unavailable:'' @ fmt_opt_int status @
                                                   str '':'' @ fmt_opt_str ctype]
                                     in Inr (fresh_result r False [] errors,
                                             write_early_metadata E w out_dir r base_url errors))
                                | Some h \<Rightarrow>
                                    Inr (scrape_site L E out_dir r base_url max_pages_per_site h w)))))))"

section \<open>Observations on results and worlds\<close>

text \<open>The value of a key in a JSON object, \<open>None\<close> when the key is missing.\<close>

definition json_field :: "json \<Rightarrow> pystr \<Rightarrow> json option" where
  "json_field j key = (case j of JObj kvs \<Rightarrow> map_of kvs key | _ \<Rightarrow> None)"

text \<open>
  The three states of \<open>metadata.json\<close> in which a directory is scanned: no such regular
  file, a file that does not parse, and an object whose \<open>saved_files\<close> is missing or falsy.
\<close>

definition metadata_absent :: "(pystr \<times> dentry) list \<Rightarrow> bool" where
  "metadata_absent entries = (\<not> is_regfile entries (str ''metadata.json''))"

definition metadata_unparsable :: "(pystr \<times> dentry) list \<Rightarrow> bool" where
  "metadata_unparsable entries =
     (case map_of entries (str ''metadata.json'') of
        Some (RegFile (Data d)) \<Rightarrow> True
      | _ \<Rightarrow> False)"

definition metadata_without_saved_files :: "(pystr \<times> dentry) list \<Rightarrow> bool" where
  "metadata_without_saved_files entries =
     (case map_of entries (str ''metadata.json'') of
        Some (RegFile (JsonDoc (JObj kvs))) \<Rightarrow> \<not> truthy (dict_get kvs (str ''saved_files'') JNull)
      | _ \<Rightarrow> False)"

text \<open>The result and the world of a run that returns.\<close>

definition result_of :: "py_exception + (site_result \<times> world) \<Rightarrow> site_result option" where
  "result_of x = (case x of Inl e \<Rightarrow> None | Inr (res, w) \<Rightarrow> Some res)"

definition world_of :: "py_exception + (site_result \<times> world) \<Rightarrow> world option" where
  "world_of x = (case x of Inl e \<Rightarrow> None | Inr (res, w) \<Rightarrow> Some w)"

text \<open>
  The documents written between two worlds: the writes logged since the first one, other
  than those of \<open>metadata.json\<close>.
\<close>

definition documents_written :: "world \<Rightarrow> world \<Rightarrow> (pystr \<times> pystr) list" where
  "documents_written w w' =
     filter (\<lambda>(d, fn). fn \<noteq> str ''metadata.json'') (drop (length (w_writes w)) (w_writes w'))"

text \<open>The file of a directory of the file system, \<open>None\<close> when there is none.\<close>

definition file_at :: "filesystem \<Rightarrow> pystr \<Rightarrow> pystr \<Rightarrow> fcontent option" where
  "file_at fs dir fn =
     (case fs dir of
        Some (Directory entries) \<Rightarrow>
          (case map_of entries fn of Some (RegFile c) \<Rightarrow> Some c | _ \<Rightarrow> None)
      | _ \<Rightarrow> None)"

text \<open>
  The scores \<open>discover_menu_links\<close> computes for the anchors that resolve to \<open>u\<close>, in
  document order; the link-derived candidates before the homepage is considered; and the
  invariant of the loop over the anchors: the dictionary has one page per URL, filed
  under its own URL, carrying the greatest of the scores seen so far, and a URL without a
  page has seen no positive score.
\<close>

definition link_scores :: "pylib \<Rightarrow> pystr \<Rightarrow> (pystr option \<times> pystr) list \<Rightarrow> pystr \<Rightarrow> int list" where
  "link_scores L base_url anchors u =
     concat (map (\<lambda>(href_opt, raw).
       case href_opt of
         None \<Rightarrow> []
       | Some href \<Rightarrow>
           if href \<noteq> [] \<and> urljoin L base_url href = u
           then [anchor_score L base_url href (take 200 raw)] else []) anchors)"

definition link_candidates :: "pylib \<Rightarrow> pystr \<Rightarrow> pystr \<Rightarrow> MenuPage list" where
  "link_candidates L base_url html = map snd (collect_links L base_url (soup_anchors L html) [])"

definition links_inv ::
  "pylib \<Rightarrow> pystr \<Rightarrow> (pystr option \<times> pystr) list \<Rightarrow> (pystr \<times> MenuPage) list \<Rightarrow> bool"
where
  "links_inv L base_url anchors candidates =
     (distinct (map fst candidates) \<and>
      (\<forall>u. case map_of candidates u of
             None \<Rightarrow> \<forall>s\<in>set (link_scores L base_url anchors u). s \<le> 0
           | Some m \<Rightarrow> mp_url m = u \<and> 0 < mp_score m \<and> \<not> mp_guessed m \<and>
                       mp_score m \<in> set (link_scores L base_url anchors u) \<and>
                       (\<forall>s\<in>set (link_scores L base_url anchors u). s \<le> mp_score m)))"

text \<open>
  The names the directory scan takes for saved documents, the effect of one iteration of
  the candidate loop (nothing saved, or one document written into the output directory),
  and the invariant of the loop: the counter is the number of saved entries, every entry
  has its write in the log, and the directory holds a document once one is saved.
\<close>

definition is_document_name :: "pylib \<Rightarrow> pystr \<Rightarrow> bool" where
  "is_document_name L fn = (fn \<noteq> str ''metadata.json'' \<and> menu_extension L fn)"

definition candidate_effect :: "pylib \<Rightarrow> pystr \<Rightarrow> scrape \<Rightarrow> scrape \<Rightarrow> bool" where
  "candidate_effect L out_dir sc sc' =
     ((sc_saved_files sc' = sc_saved_files sc \<and> sc_saved sc' = sc_saved sc \<and>
       w_fs (sc_world sc') = w_fs (sc_world sc) \<and>
       w_writes (sc_world sc') = w_writes (sc_world sc)) \<or>
      (\<exists>fn c entry es.
         is_document_name L fn \<and>
         sc_saved_files sc' = sc_saved_files sc @ [entry] \<and>
         sc_saved sc' = sc_saved sc + 1 \<and>
         w_fs (sc_world sc) out_dir = Some (Directory es) \<and>
         w_fs (sc_world sc') =
           (w_fs (sc_world sc))(out_dir \<mapsto> Directory (AList.update fn (RegFile c) es)) \<and>
         w_writes (sc_world sc') = w_writes (sc_world sc) @ [(out_dir, fn)]))"

definition loop_inv :: "pylib \<Rightarrow> pystr \<Rightarrow> world \<Rightarrow> scrape \<Rightarrow> bool" where
  "loop_inv L out_dir w0 sc =
     (sc_saved sc = int (length (sc_saved_files sc)) \<and>
      (\<exists>ws. w_writes (sc_world sc) = w_writes w0 @ ws \<and>
            length ws = length (sc_saved_files sc) \<and>
            (\<forall>p\<in>set ws. is_document_name L (snd p))) \<and>
      (\<exists>es. w_fs (sc_world sc) out_dir = Some (Directory es) \<and>
            (sc_saved_files sc \<noteq> [] \<longrightarrow>
               (\<exists>fn. fn \<in> set (map fst es) \<and> is_regfile es fn \<and> is_document_name L fn))))"

section \<open>Concrete sites\<close>

text \<open>
  A library instance for concrete runs: no Unicode beyond ASCII, and documents without
  markup, whose visible text is the document itself.
\<close>

definition plain_lib :: pylib where
  "plain_lib =
     \<lparr> u_digit = (\<lambda>c. False), u_space = (\<lambda>c. False), u_word = (\<lambda>c. False), u_lower = (\<lambda>c. [c]),
       soup_get_text = (\<lambda>html. html), soup_anchors = (\<lambda>html. []), soup_title = (\<lambda>html. None),
       soup_meta_robots = (\<lambda>html. None), urljoin = (\<lambda>b h. h), url_scheme = (\<lambda>u. []),
       url_netloc = (\<lambda>u. []), url_hostname = (\<lambda>u. None), url_path = (\<lambda>u. []),
       os_relpath = (\<lambda>p. p) \<rparr>"


text \<open>
  URLs of the form \<open>scheme://host/path\<close> (no port, user, query or fragment), on which
  \<open>simple_lib\<close> splits and joins as \<open>urllib.parse\<close> does.
\<close>

definition split_url :: "pystr \<Rightarrow> pystr \<times> pystr \<times> pystr" where
  "split_url u =
     (let scheme = takeWhile (\<lambda>c. c \<noteq> 58) u;
          rest = drop (length scheme) u
      in if scheme \<noteq> [] \<and> startswith rest (str ''://'')
         then (scheme, takeWhile (\<lambda>c. c \<noteq> 47) (drop 3 rest),
               dropWhile (\<lambda>c. c \<noteq> 47) (drop 3 rest))
         else ([], [], u))"

definition simple_urljoin :: "pystr \<Rightarrow> pystr \<Rightarrow> pystr" where
  "simple_urljoin b h =
     (if fst (split_url h) \<noteq> [] then h
      else
        let (scheme, netloc, path) = split_url b;
            root = scheme @ str ''://'' @ netloc
        in if h = [] then b
           else if startswith h (str ''/'') then root @ h
           else root @ (if path = [] then str ''/''
                        else rev (dropWhile (\<lambda>c. c \<noteq> 47) (rev path))) @ h)"

definition simple_lib :: pylib where
  "simple_lib = plain_lib
     \<lparr> urljoin := simple_urljoin,
       url_scheme := (\<lambda>u. fst (split_url u)),
       url_netloc := (\<lambda>u. fst (snd (split_url u))),
       url_hostname := (\<lambda>u. let n = fst (snd (split_url u)) in if n = [] then None else Some n),
       url_path := (\<lambda>u. snd (snd (split_url u))) \<rparr>"

definition empty_world :: world where
  "empty_world = \<lparr> w_fs = (\<lambda>p. None), w_rp_cache = (\<lambda>h. None), w_requests = [], w_writes = [] \<rparr>"

definition page :: "pystr \<Rightarrow> pystr + http_response" where
  "page b = Inr \<lparr> status_code = 200, content_type_header = Some (str ''text/html; charset=utf-8''),
                  body_text = b, body_content = b \<rparr>"

definition not_found :: "pystr + http_response" where
  "not_found = Inr \<lparr> status_code = 404, content_type_header = Some (str ''text/html''),
                     body_text = str ''Not Found'', body_content = str ''Not Found'' \<rparr>"

text \<open>
  A restaurant whose homepage has no links, whose \<open>/menu\<close> page lists prices and whose
  \<open>/food\<close> page does not; every other URL answers 404.
\<close>

definition cafe :: Restaurant where
  "cafe = \<lparr> r_uuid = [], r_slug = str ''cafe'', r_name = str ''Cafe'',
            r_website = Some (str ''https://cafe.example'') \<rparr>"

definition cafe_net :: netenv where
  "cafe_net =
     \<lparr> http_get = (\<lambda>n url.
          if url = str ''https://cafe.example'' then page (str ''Welcome to Cafe'')
          else if url = str ''https://cafe.example/menu'' then page (str ''Soup 5 Pasta 12 Wine 9'')
          else if url = str ''https://cafe.example/food'' then page (str ''Fresh food daily'')
          else not_found),
       robots_parse = (\<lambda>txt url. True),
       write_error = (\<lambda>p. None),
       makedirs_error = (\<lambda>p. False),
       clock_iso = str ''2024-01-01T00:00:00+00:00'' \<rparr>"

text \<open>An output root in which the directory of \<open>cafe\<close> holds two pages and no metadata.\<close>

definition stocked_world :: world where
  "stocked_world = empty_world
     \<lparr> w_fs := (\<lambda>p. if p = str ''menus/cafe''
                     then Some (Directory
                       [(str ''menu.html'', RegFile (Data (str ''Soup 5''))),
                        (str ''notes.txt'', RegFile (Data (str ''call back''))),
                        (str ''Lunch.HTM'', RegFile (Data (str ''Pasta 12''))),
                        (str ''old'', SubDir)])
                     else None) \<rparr>"

text \<open>
  A restaurant whose website is hosted on an external menu platform; no page of the site
  shows prices.
\<close>

definition bistro :: Restaurant where
  "bistro = \<lparr> r_uuid = [], r_slug = str ''bistro'', r_name = str ''Bistro'',
              r_website = Some (str ''https://bistro.square.site'') \<rparr>"

definition bistro_net :: netenv where
  "bistro_net = cafe_net
     \<lparr> http_get := (\<lambda>n url.
          if url = str ''https://bistro.square.site'' then page (str ''Welcome to Bistro'')
          else if url = str ''https://bistro.square.site/menu'' then page (str ''Opening soon'')
          else not_found) \<rparr>"

text \<open>A network on which every request fails, and a restaurant without a website.\<close>

definition offline_net :: netenv where
  "offline_net = cafe_net \<lparr> http_get := (\<lambda>n url. Inl (str ''timed out'')) \<rparr>"

definition nosite :: Restaurant where
  "nosite = \<lparr> r_uuid = [], r_slug = str ''nosite'', r_name = str ''No Site'', r_website = None \<rparr>"

text \<open>The candidate guessed for \<open>/food\<close>, and the locals at the start of the loop.\<close>

definition food_guess :: MenuPage where
  "food_guess =
     \<lparr> mp_url = str ''https://cafe.example/food'', mp_label = str ''food'', mp_score = 8,
       mp_content_type = None, mp_status_code = None, mp_is_menu_like = None,
       mp_guessed = True \<rparr>"

definition start_scrape :: "world \<Rightarrow> scrape" where
  "start_scrape w =
     \<lparr> sc_saved_files = [], sc_errors = [], sc_saved = 0, sc_seen_urls = {}, sc_world = w \<rparr>"

text \<open>
  The number of saved documents of a result, and the run that follows a run in the world
  that run left.
\<close>

definition num_files :: "site_result \<Rightarrow> nat" where
  "num_files res = (case res_saved_files res of JList files \<Rightarrow> length files | _ \<Rightarrow> 0)"

definition second_run ::
  "pylib \<Rightarrow> netenv \<Rightarrow> pystr \<Rightarrow> Restaurant \<Rightarrow> int \<Rightarrow> py_exception + (site_result \<times> world) \<Rightarrow>
   py_exception + (site_result \<times> world)"
where
  "second_run L E out_root r max_pages_per_site x =
     (case x of
        Inl e \<Rightarrow> Inl e
      | Inr (res, w) \<Rightarrow> process_restaurant L E out_root r max_pages_per_site w)"

text \<open>
  A page with two links to \<open>/menu\<close>, and a homepage with twelve links without text to
  the pages \<open>/menu-a\<close> to \<open>/menu-l\<close>; both show three prices. \<open>twin_lib\<close> and \<open>crowd_lib\<close>
  parse these two documents.
\<close>

definition twin_html :: pystr where
  "twin_html = str ''<a href=/menu>Menu</a> <a href=/menu>Our Menu</a> 5 9 12''"

definition twin_lib :: pylib where
  "twin_lib = simple_lib
     \<lparr> soup_get_text := (\<lambda>html. if html = twin_html
                                then str ''Menu Our Menu 5 9 12'' else html),
       soup_anchors := (\<lambda>html. if html = twin_html
                                then [(Some (str ''/menu''), str ''Menu''),
                                      (Some (str ''/menu''), str ''Our Menu'')]
                                else []) \<rparr>"

definition crowd_html :: pystr where
  "crowd_html =
     concat (map (\<lambda>c. str ''<a href=/menu-'' @ [c] @ str ''></a>'') [97..<109]) @ str ''5 9 12''"

definition crowd_lib :: pylib where
  "crowd_lib = simple_lib
     \<lparr> soup_get_text := (\<lambda>html. if html = crowd_html then str ''5 9 12'' else html),
       soup_anchors := (\<lambda>html. if html = crowd_html
                                then map (\<lambda>c. (Some (str ''/menu-'' @ [c]), [])) [97..<109]
                                else []) \<rparr>"


section \<open>Properties of the page classifier\<close>

lemma distinct_CATEGORY_KEYWORDS: "distinct CATEGORY_KEYWORDS"
  by (simp add: CATEGORY_KEYWORDS_def str_def)

lemma cat_hits_card:
  "cat_hits L txt = card {kw \<in> set CATEGORY_KEYWORDS. py_in kw (py_lower L txt)}"
proof -
  have "{kw \<in> set CATEGORY_KEYWORDS. py_in kw (py_lower L txt)} =
        {kw. py_in kw (py_lower L txt)} \<inter> set CATEGORY_KEYWORDS"
    by blast
  then show ?thesis
    unfolding cat_hits_def
    by (simp add: distinct_length_filter [OF distinct_CATEGORY_KEYWORDS])
qed

lemma is_menu_like_counts:
  "is_menu_like L html =
     (3 \<le> price_hits L (soup_get_text L html) \<or>
      2 \<le> currency_hits (soup_get_text L html) \<or>
      (1 \<le> price_hits L (soup_get_text L html) \<and> 3 \<le> cat_hits L (soup_get_text L html)))"
  by (simp add: is_menu_like_def Let_def)

text \<open>
  C6. \<open>is_menu_like html\<close> is true exactly when, over the visible text of \<open>html\<close>, there
  are at least three price tokens (matches of \<open>PRICE_RE\<close>), or at least two currency
  symbols, or at least one price token together with at least three distinct category
  keywords occurring in the lower-cased text.
\<close>

theorem is_menu_like_iff_thresholds:
  "is_menu_like L html \<longleftrightarrow>
     (3 \<le> price_hits L (soup_get_text L html) \<or>
      2 \<le> currency_hits (soup_get_text L html) \<or>
      (1 \<le> price_hits L (soup_get_text L html) \<and>
       3 \<le> card {kw \<in> set CATEGORY_KEYWORDS. py_in kw (py_lower L (soup_get_text L html))}))"
  unfolding is_menu_like_counts cat_hits_card ..

theorem is_menu_like_iff_thresholds_witness:
  "is_menu_like plain_lib (str ''Soup Pasta Wine 12'') \<and>
   \<not> is_menu_like plain_lib (str ''Soup 5 Pasta 12'')"
proof -
  have hits: "price_hits plain_lib (soup_get_text plain_lib (str ''Soup 5 Pasta 12'')) = 2"
    "currency_hits (soup_get_text plain_lib (str ''Soup 5 Pasta 12'')) = 0"
    "price_hits plain_lib (soup_get_text plain_lib (str ''Soup Pasta Wine 12'')) = 1"
    "currency_hits (soup_get_text plain_lib (str ''Soup Pasta Wine 12'')) = 0"
    by code_simp+
  have cats: "cat_hits plain_lib (soup_get_text plain_lib (str ''Soup 5 Pasta 12'')) = 2"
    "cat_hits plain_lib (soup_get_text plain_lib (str ''Soup Pasta Wine 12'')) = 3"
    by code_simp+
  show ?thesis
    unfolding is_menu_like_iff_thresholds cat_hits_card [symmetric] hits cats by simp
qed



section \<open>Properties of candidate generation\<close>

lemma link_scores_append:
  "link_scores L b (xs @ ys) u = link_scores L b xs u @ link_scores L b ys u"
  by (simp add: link_scores_def)

lemma link_scores_skip:
  "link_scores L b [(None, raw)] u = []"
  "link_scores L b [(Some [], raw)] u = []"
  by (simp_all add: link_scores_def)

lemma link_scores_one:
  "href \<noteq> [] \<Longrightarrow> link_scores L b [(Some href, raw)] u =
     (if urljoin L b href = u then [anchor_score L b href (take 200 raw)] else [])"
  by (simp add: link_scores_def)

lemma links_inv_skip:
  assumes "links_inv L b prev cands"
    and "\<forall>u. \<forall>s\<in>set (link_scores L b [a] u). s \<le> 0"
  shows "links_inv L b (prev @ [a]) cands"
  unfolding links_inv_def
proof (intro conjI allI)
  show "distinct (map fst cands)" using assms(1) by (simp add: links_inv_def)
next
  fix u
  from assms(1) have u: "case map_of cands u of
             None \<Rightarrow> \<forall>s\<in>set (link_scores L b prev u). s \<le> 0
           | Some m \<Rightarrow> mp_url m = u \<and> 0 < mp_score m \<and> \<not> mp_guessed m \<and>
                       mp_score m \<in> set (link_scores L b prev u) \<and>
                       (\<forall>s\<in>set (link_scores L b prev u). s \<le> mp_score m)"
    by (simp add: links_inv_def)
  show "case map_of cands u of
             None \<Rightarrow> \<forall>s\<in>set (link_scores L b (prev @ [a]) u). s \<le> 0
           | Some m \<Rightarrow> mp_url m = u \<and> 0 < mp_score m \<and> \<not> mp_guessed m \<and>
                       mp_score m \<in> set (link_scores L b (prev @ [a]) u) \<and>
                       (\<forall>s\<in>set (link_scores L b (prev @ [a]) u). s \<le> mp_score m)"
  proof (cases "map_of cands u")
    case None
    with u assms(2) show ?thesis by (auto simp: link_scores_append)
  next
    case (Some m)
    with u assms(2) show ?thesis by (fastforce simp: link_scores_append)
  qed
qed

lemma collect_links_inv:
  "links_inv L b prev cands \<Longrightarrow> links_inv L b (prev @ rest) (collect_links L b rest cands)"
proof (induction rest arbitrary: prev cands)
  case Nil
  then show ?case by simp
next
  case (Cons a rest)
  obtain href_opt raw where a: "a = (href_opt, raw)" by (cases a)
  have step: "\<And>cands'. links_inv L b (prev @ [a]) cands' \<Longrightarrow>
          links_inv L b (prev @ a # rest) (collect_links L b rest cands')"
    using Cons.IH [of "prev @ [a]"] by simp
  show ?case
  proof (cases "href_opt = None \<or> href_opt = Some []")
    case True
    then have "collect_links L b (a # rest) cands = collect_links L b rest cands"
      by (auto simp: a)
    moreover have "links_inv L b (prev @ [a]) cands"
      using Cons.prems True by (intro links_inv_skip) (auto simp: a link_scores_skip)
    ultimately show ?thesis using step by simp
  next
    case False
    then obtain href where href: "href_opt = Some href" "href \<noteq> []"
      by (cases href_opt) auto
    let ?u = "urljoin L b href"
    let ?s = "anchor_score L b href (take 200 raw)"
    let ?mp = "link_page L b href (take 200 raw)"
    have one: "\<And>u. link_scores L b [a] u = (if ?u = u then [?s] else [])"
      using href by (simp add: a link_scores_one)
    show ?thesis
    proof (cases "?s \<le> 0")
      case True
      then have "collect_links L b (a # rest) cands = collect_links L b rest cands"
        using href by (simp add: a Let_def)
      moreover have "links_inv L b (prev @ [a]) cands"
        using Cons.prems True by (intro links_inv_skip) (auto simp: one)
      ultimately show ?thesis using step by simp
    next
      case pos: False
      show ?thesis
      proof (cases "case map_of cands ?u of None \<Rightarrow> True | Some old \<Rightarrow> mp_score old < ?s")
        case keep: False
        then obtain old where old: "map_of cands ?u = Some old" "?s \<le> mp_score old"
          by (cases "map_of cands ?u") auto
        have "collect_links L b (a # rest) cands = collect_links L b rest cands"
          using href pos keep by (simp add: a Let_def)
        moreover have "links_inv L b (prev @ [a]) cands"
          unfolding links_inv_def
        proof (intro conjI allI)
          show "distinct (map fst cands)" using Cons.prems by (simp add: links_inv_def)
        next
          fix u
          from Cons.prems have u: "case map_of cands u of
             None \<Rightarrow> \<forall>s\<in>set (link_scores L b prev u). s \<le> 0
           | Some m \<Rightarrow> mp_url m = u \<and> 0 < mp_score m \<and> \<not> mp_guessed m \<and>
                       mp_score m \<in> set (link_scores L b prev u) \<and>
                       (\<forall>s\<in>set (link_scores L b prev u). s \<le> mp_score m)"
            by (simp add: links_inv_def)
          show "case map_of cands u of
             None \<Rightarrow> \<forall>s\<in>set (link_scores L b (prev @ [a]) u). s \<le> 0
           | Some m \<Rightarrow> mp_url m = u \<and> 0 < mp_score m \<and> \<not> mp_guessed m \<and>
                       mp_score m \<in> set (link_scores L b (prev @ [a]) u) \<and>
                       (\<forall>s\<in>set (link_scores L b (prev @ [a]) u). s \<le> mp_score m)"
          proof (cases "u = ?u")
            case True
            with u old show ?thesis by (auto simp: link_scores_append one)
          next
            case False
            with u show ?thesis
              by (cases "map_of cands u") (auto simp: link_scores_append one)
          qed
        qed
        ultimately show ?thesis using step by simp
      next
        case replace: True
        have cl: "collect_links L b (a # rest) cands =
                  collect_links L b rest (AList.update ?u ?mp cands)"
          using href pos replace by (simp add: a Let_def)
        have "links_inv L b (prev @ [a]) (AList.update ?u ?mp cands)"
          unfolding links_inv_def
        proof (intro conjI allI)
          show "distinct (map fst (AList.update ?u ?mp cands))"
            using Cons.prems by (simp add: links_inv_def distinct_update)
        next
          fix u
          from Cons.prems have u: "case map_of cands u of
             None \<Rightarrow> \<forall>s\<in>set (link_scores L b prev u). s \<le> 0
           | Some m \<Rightarrow> mp_url m = u \<and> 0 < mp_score m \<and> \<not> mp_guessed m \<and>
                       mp_score m \<in> set (link_scores L b prev u) \<and>
                       (\<forall>s\<in>set (link_scores L b prev u). s \<le> mp_score m)"
            by (simp add: links_inv_def)
          show "case map_of (AList.update ?u ?mp cands) u of
             None \<Rightarrow> \<forall>s\<in>set (link_scores L b (prev @ [a]) u). s \<le> 0
           | Some m \<Rightarrow> mp_url m = u \<and> 0 < mp_score m \<and> \<not> mp_guessed m \<and>
                       mp_score m \<in> set (link_scores L b (prev @ [a]) u) \<and>
                       (\<forall>s\<in>set (link_scores L b (prev @ [a]) u). s \<le> mp_score m)"
          proof (cases "u = ?u")
            case True
            have "\<forall>s\<in>set (link_scores L b prev ?u). s \<le> ?s"
            proof (cases "map_of cands ?u")
              case None
              with u True pos show ?thesis by fastforce
            next
              case (Some old)
              with u True replace show ?thesis by fastforce
            qed
            with True pos show ?thesis
              by (auto simp: update_conv' link_scores_append one link_page_def)
          next
            case False
            with u show ?thesis
              by (cases "map_of cands u") (auto simp: update_conv' link_scores_append one)
          qed
        qed
        with step cl show ?thesis by simp
      qed
    qed
  qed
qed

lemma links_inv_empty: "links_inv L b [] []"
  by (simp add: links_inv_def link_scores_def)

lemma collect_links_all: "links_inv L b anchors (collect_links L b anchors [])"
  using collect_links_inv [OF links_inv_empty, of L b anchors] by simp

lemma links_inv_entry:
  assumes "links_inv L b anchors cands" "(k, m) \<in> set cands"
  shows "mp_url m = k" "0 < mp_score m" "link_scores L b anchors k \<noteq> []"
    "mp_score m = Max (set (link_scores L b anchors k))"
proof -
  from assms have "map_of cands k = Some m"
    by (simp add: links_inv_def)
  with assms(1) have m: "mp_url m = k" "0 < mp_score m"
    "mp_score m \<in> set (link_scores L b anchors k)"
    "\<forall>s\<in>set (link_scores L b anchors k). s \<le> mp_score m"
    unfolding links_inv_def by (auto dest!: spec [of _ k])
  show "mp_url m = k" "0 < mp_score m" by fact+
  show "link_scores L b anchors k \<noteq> []" using m(3) by auto
  show "mp_score m = Max (set (link_scores L b anchors k))"
    using m(3,4) by (intro Max_eqI [symmetric]) auto
qed

text \<open>The dictionary at the end: distinct keys, every page filed under its own URL.\<close>

lemma discovered_keys:
  "distinct (map fst (discovered L b html))"
  "(k, m) \<in> set (discovered L b html) \<Longrightarrow> mp_url m = k"
  "(k, m) \<in> set (discovered L b html) \<Longrightarrow> k \<noteq> b \<or> \<not> is_menu_like L html \<Longrightarrow>
     (k, m) \<in> set (collect_links L b (soup_anchors L html) [])"
  "(b, m) \<in> set (discovered L b html) \<Longrightarrow> is_menu_like L html \<Longrightarrow> m = homepage_page b"
  "is_menu_like L html \<Longrightarrow> (b, homepage_page b) \<in> set (discovered L b html)"
proof -
  let ?C = "collect_links L b (soup_anchors L html) []"
  have inv: "links_inv L b (soup_anchors L html) ?C"
    by (rule collect_links_all)
  then have dC: "distinct (map fst ?C)"
    by (simp add: links_inv_def)
  show d: "distinct (map fst (discovered L b html))"
    using dC by (simp add: discovered_def Let_def distinct_update)
  have mo: "\<And>k. map_of (discovered L b html) k =
      (if is_menu_like L html \<and> k = b then Some (homepage_page b) else map_of ?C k)"
    by (simp add: discovered_def Let_def update_conv')
  {
    assume km: "(k, m) \<in> set (discovered L b html)"
    then have s: "map_of (discovered L b html) k = Some m"
      using d by simp
    show "mp_url m = k"
    proof (cases "is_menu_like L html \<and> k = b")
      case True
      with s mo have "m = homepage_page b" by simp
      with True show ?thesis by (simp add: homepage_page_def)
    next
      case False
      with s mo have "map_of ?C k = Some m" by simp
      then have "(k, m) \<in> set ?C" by (rule map_of_SomeD)
      with inv show ?thesis by (rule links_inv_entry(1))
    qed
    {
      assume "k \<noteq> b \<or> \<not> is_menu_like L html"
      with s mo have "map_of ?C k = Some m" by auto
      then show "(k, m) \<in> set ?C" by (rule map_of_SomeD)
    }
  }
  {
    assume "(b, m) \<in> set (discovered L b html)" "is_menu_like L html"
    then have "map_of (discovered L b html) b = Some m" "is_menu_like L html"
      using d by simp_all
    with mo show "m = homepage_page b" by simp
  }
  {
    assume "is_menu_like L html"
    with mo have "map_of (discovered L b html) b = Some (homepage_page b)" by simp
    then show "(b, homepage_page b) \<in> set (discovered L b html)" by (rule map_of_SomeD)
  }
qed

lemma discovered_urls:
  "map mp_url (map snd (discovered L b html)) = map fst (discovered L b html)"
  using discovered_keys(2) [of _ _ L b html] by (auto simp: map_eq_conv)

lemma distinct_sort_take:
  assumes "distinct (map g xs)"
  shows "distinct (map g (take n (sort_key f xs)))"
proof -
  have "mset (map g (sort_key f xs)) = mset (map g xs)"
    by simp
  then have "distinct (map g (sort_key f xs))"
    using assms by (metis mset_eq_imp_distinct_iff)
  then show ?thesis
    by (simp add: take_map [symmetric] del: take_map)
qed

lemma discover_menu_links_subset:
  "m \<in> set (discover_menu_links L b html) \<Longrightarrow> (mp_url m, m) \<in> set (discovered L b html)"
proof -
  assume "m \<in> set (discover_menu_links L b html)"
  then have "m \<in> set (map snd (discovered L b html))"
    unfolding discover_menu_links_def by (auto dest: in_set_takeD)
  then obtain k where km: "(k, m) \<in> set (discovered L b html)" by auto
  with discovered_keys(2) [OF km] show ?thesis by simp
qed

text \<open>
  C8 (amended). The output of \<open>discover_menu_links\<close> holds at most one candidate per
  absolute URL. A candidate for a URL other than the base URL, and any candidate when the
  homepage is not menu-like, carries the maximum of the scores computed for all the
  anchors that resolve to its URL. (The candidate for the base URL of a menu-like
  homepage is the injected one, with score 5.)
\<close>

theorem one_candidate_per_url_with_max_score:
  "distinct (map mp_url (discover_menu_links L base_url html)) \<and>
   (\<forall>m\<in>set (discover_menu_links L base_url html).
      mp_url m \<noteq> base_url \<or> \<not> is_menu_like L html \<longrightarrow>
        link_scores L base_url (soup_anchors L html) (mp_url m) \<noteq> [] \<and>
        mp_score m = Max (set (link_scores L base_url (soup_anchors L html) (mp_url m))))"
proof (intro conjI ballI impI)
  have "distinct (map mp_url (map snd (discovered L base_url html)))"
    unfolding discovered_urls by (rule discovered_keys(1))
  then show "distinct (map mp_url (discover_menu_links L base_url html))"
    unfolding discover_menu_links_def by (rule distinct_sort_take)
next
  fix m
  assume m: "m \<in> set (discover_menu_links L base_url html)"
    and other: "mp_url m \<noteq> base_url \<or> \<not> is_menu_like L html"
  from discover_menu_links_subset [OF m] other
  have "(mp_url m, m) \<in> set (collect_links L base_url (soup_anchors L html) [])"
    by (rule discovered_keys(3))
  with collect_links_all [of L base_url "soup_anchors L html"]
  show "link_scores L base_url (soup_anchors L html) (mp_url m) \<noteq> []"
    and "mp_score m = Max (set (link_scores L base_url (soup_anchors L html) (mp_url m)))"
    by (rule links_inv_entry(3), rule links_inv_entry(4))
qed

lemma length_filter_sort_key:
  "length (filter P (sort_key f xs)) = length (filter P xs)"
proof -
  have "mset (filter P (sort_key f xs)) = mset (filter P xs)"
    by simp
  then show ?thesis
    by (metis size_mset)
qed

text \<open>Where an element lands in the first \<open>n\<close> places of a stable sort.\<close>

lemma sort_key_take_member:
  assumes x: "x \<in> set xs"
    and few: "length (filter (\<lambda>y. y \<noteq> x \<and> f y \<le> f x) xs) < n"
  shows "x \<in> set (take n (sort_key f xs))"
proof -
  let ?ys = "sort_key f xs"
  from x have "x \<in> set ?ys" by simp
  then obtain us vs where ys: "?ys = us @ x # vs" and first: "x \<notin> set us"
    by (meson split_list_first)
  have "sorted (map f ?ys)" by simp
  then have le: "\<forall>u\<in>set us. f u \<le> f x"
    unfolding ys by (auto simp: sorted_append)
  have "filter (\<lambda>y. y \<noteq> x \<and> f y \<le> f x) us = us"
    using le first by (auto simp: filter_id_conv)
  then have "length us \<le> length (filter (\<lambda>y. y \<noteq> x \<and> f y \<le> f x) ?ys)"
    unfolding ys by (metis filter_append length_append le_add1)
  also have "\<dots> = length (filter (\<lambda>y. y \<noteq> x \<and> f y \<le> f x) xs)"
    by (rule length_filter_sort_key)
  finally have "length us < n" using few by simp
  then show ?thesis
    unfolding ys by (cases "n - length us") auto
qed

lemma sort_key_take_not_member:
  assumes many: "n \<le> length (filter (\<lambda>y. f y < f x) xs)"
  shows "x \<notin> set (take n (sort_key f xs))"
proof
  let ?ys = "sort_key f xs"
  assume "x \<in> set (take n ?ys)"
  then obtain us vs where t: "take n ?ys = us @ x # vs"
    by (meson split_list)
  have ys: "?ys = us @ x # (vs @ drop n ?ys)"
    using t by (metis append_take_drop_id append.assoc append_Cons)
  have len: "length us < n"
  proof -
    have "length (us @ x # vs) \<le> n" using t by (metis length_take min.cobounded2)
    then show ?thesis by simp
  qed
  have "sorted (map f ?ys)" by simp
  then have "sorted (map f (us @ x # (vs @ drop n ?ys)))" using ys by simp
  then have "\<forall>v\<in>set (vs @ drop n ?ys). f x \<le> f v"
    by (auto simp: sorted_append)
  then have "filter (\<lambda>y. f y < f x) (x # (vs @ drop n ?ys)) = []"
    by (auto simp: filter_empty_conv not_less)
  then have "filter (\<lambda>y. f y < f x) (us @ x # (vs @ drop n ?ys)) = filter (\<lambda>y. f y < f x) us"
    by (simp del: filter.simps)
  then have "filter (\<lambda>y. f y < f x) ?ys = filter (\<lambda>y. f y < f x) us"
    using ys by simp
  then have "length (filter (\<lambda>y. f y < f x) ?ys) \<le> length us"
    by simp
  then have "length (filter (\<lambda>y. f y < f x) xs) < n"
    using len by (simp add: length_filter_sort_key)
  with many show False by simp
qed

lemma filter_update_other:
  "filter (\<lambda>(k, v). k \<noteq> b \<and> P v) (AList.update b v0 al) = filter (\<lambda>(k, v). k \<noteq> b \<and> P v) al"
  by (induction al) auto

text \<open>
  The pages of other URLs in the final dictionary are the link-derived ones, whatever the
  homepage injection does.
\<close>

lemma others_in_discovered:
  "length (filter (\<lambda>m. mp_url m \<noteq> b \<and> P m) (map snd (discovered L b html))) =
   length (filter (\<lambda>m. mp_url m \<noteq> b \<and> P m) (link_candidates L b html))"
proof -
  let ?C = "collect_links L b (soup_anchors L html) []"
  have key: "\<And>cands. \<forall>(k, m)\<in>set cands. mp_url m = k \<Longrightarrow>
      filter (\<lambda>m. mp_url m \<noteq> b \<and> P m) (map snd cands) =
      map snd (filter (\<lambda>(k, m). k \<noteq> b \<and> P m) cands)"
    subgoal for cands by (induction cands) auto
    done
  have D: "\<forall>(k, m)\<in>set (discovered L b html). mp_url m = k"
    using discovered_keys(2) by blast
  have C: "\<forall>(k, m)\<in>set ?C. mp_url m = k"
    using links_inv_entry(1) [OF collect_links_all] by blast
  have "filter (\<lambda>(k, m). k \<noteq> b \<and> P m) (discovered L b html) =
        filter (\<lambda>(k, m). k \<noteq> b \<and> P m) ?C"
    by (simp add: discovered_def Let_def filter_update_other)
  then show ?thesis
    unfolding link_candidates_def key [OF D] key [OF C] by simp
qed

text \<open>
  C9 (amended). When the homepage is menu-like, every candidate for the base URL in the
  output of \<open>discover_menu_links\<close> is the injected one, with label \<open>menu\<close> and score 5,
  whatever the anchors to that URL scored. The output contains it when fewer than twelve
  link-derived candidates for other URLs score 5 or more, and does not contain any
  candidate for the base URL when twelve or more of them score above 5: the list is cut
  to its twelve best entries.
\<close>

theorem homepage_candidate_injected:
  assumes menu: "is_menu_like L html"
  shows "(\<forall>m\<in>set (discover_menu_links L base_url html).
            mp_url m = base_url \<longrightarrow> m = homepage_page base_url) \<and>
         (length (filter (\<lambda>m. mp_url m \<noteq> base_url \<and> 5 \<le> mp_score m)
                    (link_candidates L base_url html)) < 12 \<longrightarrow>
            homepage_page base_url \<in> set (discover_menu_links L base_url html)) \<and>
         (12 \<le> length (filter (\<lambda>m. mp_url m \<noteq> base_url \<and> 5 < mp_score m)
                      (link_candidates L base_url html)) \<longrightarrow>
            base_url \<notin> set (map mp_url (discover_menu_links L base_url html)))"
proof (intro conjI ballI impI)
  fix m
  assume "m \<in> set (discover_menu_links L base_url html)" "mp_url m = base_url"
  with discover_menu_links_subset [of m L base_url html]
  have "(base_url, m) \<in> set (discovered L base_url html)" by simp
  then show "m = homepage_page base_url"
    using menu by (rule discovered_keys(4))
next
  let ?hp = "homepage_page base_url"
  let ?xs = "map snd (discovered L base_url html)"
  let ?f = "\<lambda>m. - mp_score m"
  have hp: "?hp \<in> set ?xs"
    using discovered_keys(5) [OF menu, of base_url] by force
  have only: "\<And>y. y \<in> set ?xs \<Longrightarrow> (y \<noteq> ?hp) = (mp_url y \<noteq> base_url)"
  proof -
    fix y assume "y \<in> set ?xs"
    then obtain k where "(k, y) \<in> set (discovered L base_url html)" by auto
    then have "(mp_url y, y) \<in> set (discovered L base_url html)"
      using discovered_keys(2) by fastforce
    then show "(y \<noteq> ?hp) = (mp_url y \<noteq> base_url)"
      using discovered_keys(4) [of base_url y L html] menu
      by (auto simp: homepage_page_def)
  qed
  {
    assume few: "length (filter (\<lambda>m. mp_url m \<noteq> base_url \<and> 5 \<le> mp_score m)
                    (link_candidates L base_url html)) < 12"
    have "filter (\<lambda>y. y \<noteq> ?hp \<and> ?f y \<le> ?f ?hp) ?xs =
          filter (\<lambda>m. mp_url m \<noteq> base_url \<and> 5 \<le> mp_score m) ?xs"
      using only by (intro filter_cong) (auto simp: homepage_page_def)
    then have "length (filter (\<lambda>y. y \<noteq> ?hp \<and> ?f y \<le> ?f ?hp) ?xs) < 12"
      using few by (simp only: others_in_discovered)
    with hp have "?hp \<in> set (take 12 (sort_key ?f ?xs))"
      by (rule sort_key_take_member)
    then show "?hp \<in> set (discover_menu_links L base_url html)"
      by (simp add: discover_menu_links_def)
  }
  {
    assume many: "12 \<le> length (filter (\<lambda>m. mp_url m \<noteq> base_url \<and> 5 < mp_score m)
                      (link_candidates L base_url html))"
    have "\<And>y. y \<in> set ?xs \<Longrightarrow>
            (?f y < ?f ?hp) = (mp_url y \<noteq> base_url \<and> 5 < mp_score y)"
    proof -
      fix y assume y: "y \<in> set ?xs"
      have five: "mp_score ?hp = 5" by (simp add: homepage_page_def)
      show "(?f y < ?f ?hp) = (mp_url y \<noteq> base_url \<and> 5 < mp_score y)"
      proof (cases "y = ?hp")
        case True
        with five show ?thesis by simp
      next
        case False
        with only [OF y] have "mp_url y \<noteq> base_url" by simp
        with five show ?thesis by simp
      qed
    qed
    then have "filter (\<lambda>y. ?f y < ?f ?hp) ?xs =
          filter (\<lambda>m. mp_url m \<noteq> base_url \<and> 5 < mp_score m) ?xs"
      by (intro filter_cong) auto
    then have "12 \<le> length (filter (\<lambda>y. ?f y < ?f ?hp) ?xs)"
      using many by (simp only: others_in_discovered)
    then have out: "?hp \<notin> set (take 12 (sort_key ?f ?xs))"
      by (rule sort_key_take_not_member)
    show "base_url \<notin> set (map mp_url (discover_menu_links L base_url html))"
    proof
      assume "base_url \<in> set (map mp_url (discover_menu_links L base_url html))"
      then obtain m where m: "m \<in> set (discover_menu_links L base_url html)" "mp_url m = base_url"
        by auto
      with discover_menu_links_subset [of m L base_url html]
      have "(base_url, m) \<in> set (discovered L base_url html)" by simp
      then have "m = ?hp" using menu by (rule discovered_keys(4))
      with m(1) out show False by (simp add: discover_menu_links_def)
    qed
  }
qed

section \<open>Properties of the resume check\<close>

lemma lower_ascii:
  "\<forall>c\<in>set s. c < 65 \<or> (90 < c \<and> c < 128) \<Longrightarrow> py_lower L s = s"
  by (induction s) (auto simp: py_lower_def lower_cp_def)

lemma not_menu_extension_metadata: "\<not> menu_extension L (str ''metadata.json'')"
  by (simp add: menu_extension_def splitext_ext_def path_basename_def str_def py_lower_def lower_cp_def)

lemma result_from_metadata_skipped:
  "result_from_metadata r slug c = Some res \<Longrightarrow> res_skipped res \<and> res_found res"
  by (auto simp: result_from_metadata_def Let_def split: fcontent.splits json.splits if_splits)

lemma existing_menu_info_skipped:
  assumes "existing_menu_info L fs out_root r = Some res"
  shows "res_skipped res \<and> res_found res"
  using assms
  by (auto simp: existing_menu_info_def Let_def restaurant_output_dir_def
           split: option.splits fsnode.splits dentry.splits if_splits
           dest: result_from_metadata_skipped)

lemma scanned_entry_fields:
  "json_field (scanned_entry L d fn) (str ''url'') = Some JNull"
  "json_field (scanned_entry L d fn) (str ''status'') = Some JNull"
  "json_field (scanned_entry L d fn) (str ''content_type'') = Some JNull"
  "json_field (scanned_entry L d fn) (str ''is_menu_like'') = Some (JBool True)"
  by (simp_all add: json_field_def scanned_entry_def str_def)

lemma result_from_metadata_unusable:
  assumes "metadata_absent entries \<or> metadata_unparsable entries \<or> metadata_without_saved_files entries"
  shows "(case map_of entries (str ''metadata.json'') of
            Some (RegFile c) \<Rightarrow> result_from_metadata r slug c
          | _ \<Rightarrow> None) = None"
  using assms
  by (auto simp: metadata_absent_def metadata_unparsable_def metadata_without_saved_files_def
                 is_regfile_def result_from_metadata_def Let_def
           split: option.splits dentry.splits fcontent.splits json.splits)

text \<open>
  C10. When the output directory of a restaurant exists, \<open>metadata.json\<close> is absent, does
  not parse or lists no saved files, and the directory holds at least one regular file
  with the extension \<open>.html\<close>, \<open>.htm\<close> or \<open>.pdf\<close> (in any case), \<open>existing_menu_info\<close>
  returns a result with \<open>found\<close> and \<open>skipped\<close> true whose \<open>saved_files\<close> is a non-empty
  list in which every entry has \<open>url\<close>, \<open>status\<close> and \<open>content_type\<close> \<open>None\<close> and
  \<open>is_menu_like\<close> true.
\<close>

theorem existing_menu_info_directory_scan:
  assumes dir: "fs (fst (restaurant_output_dir out_root r)) = Some (Directory entries)"
    and meta: "metadata_absent entries \<or> metadata_unparsable entries \<or>
               metadata_without_saved_files entries"
    and doc: "fn \<in> set (map fst entries)" "is_regfile entries fn" "menu_extension L fn"
  shows "\<exists>res files.
           existing_menu_info L fs out_root r = Some res \<and>
           res_found res \<and> res_skipped res \<and>
           res_saved_files res = JList files \<and> files \<noteq> [] \<and>
           (\<forall>e\<in>set files.
              json_field e (str ''url'') = Some JNull \<and>
              json_field e (str ''status'') = Some JNull \<and>
              json_field e (str ''content_type'') = Some JNull \<and>
              json_field e (str ''is_menu_like'') = Some (JBool True))"
proof -
  obtain out_dir slug_unique where od: "restaurant_output_dir out_root r = (out_dir, slug_unique)"
    by (cases "restaurant_output_dir out_root r")
  let ?files = "scan_directory L out_dir entries"
  have "fn \<noteq> str ''metadata.json''"
    using doc(3) not_menu_extension_metadata by auto
  with doc have "scanned_entry L out_dir fn \<in> set ?files"
    by (auto simp: scan_directory_def)
  then have nonempty: "?files \<noteq> []"
    by auto
  have fields: "\<forall>e\<in>set ?files.
              json_field e (str ''url'') = Some JNull \<and>
              json_field e (str ''status'') = Some JNull \<and>
              json_field e (str ''content_type'') = Some JNull \<and>
              json_field e (str ''is_menu_like'') = Some (JBool True)"
    by (auto simp: scan_directory_def scanned_entry_fields)
  have "existing_menu_info L fs out_root r =
          Some \<lparr> res_uuid = JStr (r_uuid r), res_slug = slug_unique, res_name = JStr (r_name r),
                 res_website = json_opt_str (r_website r), res_found = True,
                 res_saved_files = JList ?files,
                 res_errors = [JStr (str ''skipped_existing_menu_no_meta'')],
                 res_skipped = True \<rparr>"
    using dir nonempty result_from_metadata_unusable [OF meta, of r slug_unique]
    by (simp add: existing_menu_info_def od Let_def)
  with nonempty fields show ?thesis
    by simp
qed

theorem existing_menu_info_directory_scan_witness:
  "\<exists>res files. existing_menu_info simple_lib (w_fs stocked_world) (str ''menus'') cafe = Some res \<and>
       res_found res \<and> res_skipped res \<and> res_saved_files res = JList files \<and> files \<noteq> []"
proof -
  have dir: "w_fs stocked_world (fst (restaurant_output_dir (str ''menus'') cafe)) =
        Some (Directory
                       [(str ''menu.html'', RegFile (Data (str ''Soup 5''))),
                        (str ''notes.txt'', RegFile (Data (str ''call back''))),
                        (str ''Lunch.HTM'', RegFile (Data (str ''Pasta 12''))),
                        (str ''old'', SubDir)])" (is "_ = Some (Directory ?entries)")
    by code_simp
  have meta: "metadata_absent ?entries \<or> metadata_unparsable ?entries \<or>
               metadata_without_saved_files ?entries"
    by code_simp
  have doc: "str ''Lunch.HTM'' \<in> set (map fst ?entries)" "is_regfile ?entries (str ''Lunch.HTM'')"
    "menu_extension simple_lib (str ''Lunch.HTM'')"
    by code_simp+
  note t = existing_menu_info_directory_scan [where L = simple_lib and fs = "w_fs stocked_world" and out_root = "str ''menus''" and r = cafe and fn = "str ''Lunch.HTM''", OF dir meta]
  note t2 = t [OF doc]
  from t2
  obtain res files where
    "existing_menu_info simple_lib (w_fs stocked_world) (str ''menus'') cafe = Some res"
    "res_found res" "res_skipped res" "res_saved_files res = JList files" "files \<noteq> []"
    by blast
  then show ?thesis
    by blast
qed

section \<open>Properties of the candidate loop\<close>

lemma sub_runs_chars:
  "c \<in> set (sub_runs b s) \<Longrightarrow> (97 \<le> c \<and> c \<le> 122) \<or> (48 \<le> c \<and> c \<le> 57) \<or> c = 45"
  by (induction b s rule: sub_runs.induct) (auto split: if_splits)

lemma strip_char_subset: "set (strip_char x s) \<subseteq> set s"
proof -
  have "set (strip_char x s) \<subseteq> set (dropWhile (\<lambda>y. y = x) s)"
    unfolding strip_char_def using set_dropWhileD by fastforce
  also have "\<dots> \<subseteq> set s"
    using set_dropWhileD by fastforce
  finally show ?thesis .
qed

lemma sanitize_label_chars:
  assumes "c \<in> set (sanitize_label L x)"
  shows "(97 \<le> c \<and> c \<le> 122) \<or> (48 \<le> c \<and> c \<le> 57) \<or> c = 45"
proof -
  let ?y = "strip_char 45 (sub_runs False
              (let l = py_strip L (py_lower L x) in if l = [] then str ''menu'' else l))"
  have "c \<in> set (if ?y = [] then str ''menu'' else ?y)"
    using assms by (auto simp: sanitize_label_def Let_def dest: in_set_takeD)
  then show ?thesis
  proof (cases "?y = []")
    case True
    with \<open>c \<in> set (if ?y = [] then str ''menu'' else ?y)\<close> show ?thesis
      by (auto simp: str_def)
  next
    case False
    with \<open>c \<in> set (if ?y = [] then str ''menu'' else ?y)\<close> have "c \<in> set ?y" by simp
    then show ?thesis
      using strip_char_subset sub_runs_chars by blast
  qed
qed

lemma sanitize_label_nonempty: "sanitize_label L x \<noteq> []"
  by (auto simp: sanitize_label_def Let_def str_def)

lemma file_label_sanitized: "\<exists>x. file_label L mp = sanitize_label L x"
proof -
  have "file_label L mp = sanitize_label L (if mp_label mp = [] then str ''menu'' else mp_label mp) \<or>
        file_label L mp = sanitize_label L
          (if path_basename (url_path L (mp_url mp)) = [] then str ''menu''
           else path_basename (url_path L (mp_url mp)))"
    unfolding file_label_def Let_def by argo
  then show ?thesis by blast
qed

lemma file_label_chars:
  "c \<in> set (file_label L mp) \<Longrightarrow> c \<noteq> 46 \<and> c \<noteq> 47"
  using file_label_sanitized [of L mp] sanitize_label_chars [of c L] by fastforce

lemma file_label_nonempty: "file_label L mp \<noteq> []"
  by (metis file_label_sanitized sanitize_label_nonempty)

lemma splitext_html:
  assumes "lab \<noteq> []" "\<forall>c\<in>set lab. c \<noteq> 46 \<and> c \<noteq> 47"
  shows "splitext_ext (lab @ str ''.html'') = str ''.html''"
proof -
  have t47: "takeWhile (\<lambda>c. c \<noteq> 47) (rev lab) = rev lab"
    using assms(2) by (simp add: takeWhile_eq_all_conv)
  have b: "path_basename (lab @ str ''.html'') = lab @ str ''.html''"
    by (simp add: path_basename_def str_def t47)
  have f: "filter (\<lambda>c. c \<noteq> 46) lab = lab"
    using assms(2) by (simp add: filter_id_conv)
  show ?thesis
    unfolding splitext_ext_def b Let_def using assms(1)
    by (simp add: str_def f)
qed

lemma splitext_pdf:
  assumes "lab \<noteq> []" "\<forall>c\<in>set lab. c \<noteq> 46 \<and> c \<noteq> 47"
  shows "splitext_ext (lab @ str ''.pdf'') = str ''.pdf''"
proof -
  have t47: "takeWhile (\<lambda>c. c \<noteq> 47) (rev lab) = rev lab"
    using assms(2) by (simp add: takeWhile_eq_all_conv)
  have b: "path_basename (lab @ str ''.pdf'') = lab @ str ''.pdf''"
    by (simp add: path_basename_def str_def t47)
  have f: "filter (\<lambda>c. c \<noteq> 46) lab = lab"
    using assms(2) by (simp add: filter_id_conv)
  show ?thesis
    unfolding splitext_ext_def b Let_def using assms(1)
    by (simp add: str_def f)
qed

lemma document_name_html: "is_document_name L (file_label L mp @ str ''.html'')"
proof -
  have "splitext_ext (file_label L mp @ str ''.html'') = str ''.html''"
    using splitext_html file_label_nonempty file_label_chars by blast
  moreover have "py_lower L (str ''.html'') = str ''.html''"
    by (simp add: py_lower_def lower_cp_def str_def)
  moreover have "file_label L mp @ str ''.html'' \<noteq> str ''metadata.json''"
  proof
    assume "file_label L mp @ str ''.html'' = str ''metadata.json''"
    then have "last (file_label L mp @ str ''.html'') = last (str ''metadata.json'')" by simp
    then show False by (simp add: str_def)
  qed
  ultimately show ?thesis
    by (simp add: is_document_name_def menu_extension_def)
qed

lemma document_name_pdf: "is_document_name L (file_label L mp @ str ''.pdf'')"
proof -
  have "splitext_ext (file_label L mp @ str ''.pdf'') = str ''.pdf''"
    using splitext_pdf file_label_nonempty file_label_chars by blast
  moreover have "py_lower L (str ''.pdf'') = str ''.pdf''"
    by (simp add: py_lower_def lower_cp_def str_def)
  moreover have "file_label L mp @ str ''.pdf'' \<noteq> str ''metadata.json''"
  proof
    assume "file_label L mp @ str ''.pdf'' = str ''metadata.json''"
    then have "last (file_label L mp @ str ''.pdf'') = last (str ''metadata.json'')" by simp
    then show False by (simp add: str_def)
  qed
  ultimately show ?thesis
    by (simp add: is_document_name_def menu_extension_def)
qed


lemma write_file_Inr:
  assumes "write_file E w d fn c = Inr w'"
  shows "\<exists>es. w_fs w d = Some (Directory es) \<and>
              w' = w\<lparr> w_fs := (w_fs w)(d \<mapsto> Directory (AList.update fn (RegFile c) es)),
                      w_writes := w_writes w @ [(d, fn)] \<rparr> \<and>
              write_error E (path_join d fn) = None"
  using assms
  by (auto simp: write_file_def split: option.splits fsnode.splits)

lemma client_get_world:
  "snd (client_get E w url) = w\<lparr> w_requests := w_requests w @ [url] \<rparr>"
  by (simp add: client_get_def)

lemma fetch_robots_world:
  "w_fs (snd (fetch_robots L E w url)) = w_fs w"
  "w_writes (snd (fetch_robots L E w url)) = w_writes w"
  by (auto simp: fetch_robots_def client_get_def Let_def split: option.splits prod.splits sum.splits)

lemma fetch_text_world:
  "w_fs (snd (fetch_text L E w url)) = w_fs w"
  "w_writes (snd (fetch_text L E w url)) = w_writes w"
  by (auto simp: fetch_text_def client_get_def Let_def split: prod.splits sum.splits)

lemma candidate_effect_refl: "candidate_effect L d sc sc"
  by (simp add: candidate_effect_def)

lemma candidate_effect_errors:
  "candidate_effect L d sc (sc\<lparr> sc_errors := e \<rparr>)"
  by (simp add: candidate_effect_def)

lemma candidate_effect_from:
  assumes "candidate_effect L d sc1 sc2"
    and "sc_saved_files sc1 = sc_saved_files sc" "sc_saved sc1 = sc_saved sc"
    and "w_fs (sc_world sc1) = w_fs (sc_world sc)"
    and "w_writes (sc_world sc1) = w_writes (sc_world sc)"
  shows "candidate_effect L d sc sc2"
  using assms unfolding candidate_effect_def by auto

lemma save_html_effect:
  "candidate_effect L d sc (save_html L E d mp body status2 ctype2 menu_like sc)"
proof (cases "write_file E (sc_world sc) d (file_label L mp @ str ''.html'') (Data body)")
  case (Inl e)
  then show ?thesis
    by (simp add: save_html_def Let_def candidate_effect_def)
next
  case (Inr w')
  from write_file_Inr [OF Inr] obtain es where
    es: "w_fs (sc_world sc) d = Some (Directory es)"
    and w': "w' = (sc_world sc)\<lparr> w_fs := (w_fs (sc_world sc))(d \<mapsto>
                     Directory (AList.update (file_label L mp @ str ''.html'') (RegFile (Data body)) es)),
                   w_writes := w_writes (sc_world sc) @ [(d, file_label L mp @ str ''.html'')] \<rparr>"
    by blast
  show ?thesis
    unfolding candidate_effect_def
    apply (rule disjI2)
    apply (rule exI [of _ "file_label L mp @ str ''.html''"])
    apply (rule exI [of _ "Data body"])
    using Inr es w' document_name_html [of L mp]
    by (simp add: save_html_def Let_def)
qed

lemma save_pdf_effect:
  "candidate_effect L d sc (save_pdf L E d mp status2 ctype2 sc)"
proof -
  obtain pdf_resp w where cg: "client_get E (sc_world sc) (mp_url mp) = (pdf_resp, w)"
    by (cases "client_get E (sc_world sc) (mp_url mp)")
  have w: "w_fs w = w_fs (sc_world sc)" "w_writes w = w_writes (sc_world sc)"
    using client_get_world [of E "sc_world sc" "mp_url mp"] cg by auto
  show ?thesis
  proof (cases pdf_resp)
    case (Inl e)
    then show ?thesis
      using cg w by (simp add: save_pdf_def Let_def candidate_effect_def)
  next
    case (Inr resp)
    show ?thesis
    proof (cases "write_file E w d (file_label L mp @ str ''.pdf'') (Data (body_content resp))")
      case (Inl e)
      then show ?thesis
        using cg w Inr by (simp add: save_pdf_def Let_def candidate_effect_def)
    next
      case wr: (Inr w')
      from write_file_Inr [OF wr] obtain es where
        es: "w_fs w d = Some (Directory es)"
        and w': "w' = w\<lparr> w_fs := (w_fs w)(d \<mapsto>
                     Directory (AList.update (file_label L mp @ str ''.pdf'')
                                  (RegFile (Data (body_content resp))) es)),
                   w_writes := w_writes w @ [(d, file_label L mp @ str ''.pdf'')] \<rparr>"
        by blast
      show ?thesis
        unfolding candidate_effect_def
        apply (rule disjI2)
        apply (rule exI [of _ "file_label L mp @ str ''.pdf''"])
        apply (rule exI [of _ "Data (body_content resp)"])
        using cg w Inr wr es w' document_name_pdf [of L mp]
        by (simp add: save_pdf_def Let_def)
    qed
  qed
qed

lemma classify_and_save_effect:
  "candidate_effect L d sc (classify_and_save L E d mp body status2 ctype2 sc)"
  unfolding classify_and_save_def Let_def
  by (auto simp: candidate_effect_errors candidate_effect_refl save_html_effect split: option.splits)

lemma process_candidate_effect:
  "candidate_effect L d sc (process_candidate L E d mp sc)"
proof (cases "mp_url mp \<in> sc_seen_urls sc")
  case True
  then show ?thesis
    by (simp add: process_candidate_def candidate_effect_refl)
next
  case False
  obtain rp w1 where fr: "fetch_robots L E (sc_world sc) (mp_url mp) = (rp, w1)"
    by (cases "fetch_robots L E (sc_world sc) (mp_url mp)")
  have w1: "w_fs w1 = w_fs (sc_world sc)" "w_writes w1 = w_writes (sc_world sc)"
    using fetch_robots_world [of L E "sc_world sc" "mp_url mp"] fr by auto
  define sc1 where "sc1 = sc\<lparr> sc_seen_urls := insert (mp_url mp) (sc_seen_urls sc), sc_world := w1 \<rparr>"
  show ?thesis
  proof (cases "rp (mp_url mp)")
    case blocked: False
    then show ?thesis
      using False fr w1 by (simp add: process_candidate_def Let_def candidate_effect_def)
  next
    case allowed: True
    obtain body ctype2 status2 w2 where
      ft: "fetch_text L E w1 (mp_url mp) = ((body, ctype2, status2), w2)"
      by (cases "fetch_text L E w1 (mp_url mp)") auto
    have w2: "w_fs w2 = w_fs (sc_world sc)" "w_writes w2 = w_writes (sc_world sc)"
      using fetch_text_world [of L E w1 "mp_url mp"] ft w1 by auto
    define sc2 where "sc2 = sc1\<lparr> sc_world := w2 \<rparr>"
    have same: "sc_saved_files sc2 = sc_saved_files sc" "sc_saved sc2 = sc_saved sc"
      "w_fs (sc_world sc2) = w_fs (sc_world sc)" "w_writes (sc_world sc2) = w_writes (sc_world sc)"
      using w2 by (simp_all add: sc2_def sc1_def)
    have pc: "process_candidate L E d mp sc =
          (if is_pdf_ctype ctype2 then save_pdf L E d mp status2 ctype2 sc2
           else classify_and_save L E d mp body status2 ctype2 sc2)"
      using False fr allowed ft by (simp add: process_candidate_def Let_def sc2_def sc1_def)
    have "candidate_effect L d sc2 (process_candidate L E d mp sc)"
      unfolding pc by (simp add: save_pdf_effect classify_and_save_effect)
    then show ?thesis
      using same by (rule candidate_effect_from)
  qed
qed

lemma is_regfile_update_same: "is_regfile (AList.update fn (RegFile c) es) fn"
  by (simp add: is_regfile_def update_conv')

lemma is_regfile_update_other:
  "fn' \<noteq> fn \<Longrightarrow> is_regfile (AList.update fn v es) fn' = is_regfile es fn'"
  by (simp add: is_regfile_def update_conv')

lemma keys_update: "set (map fst (AList.update fn v es)) = insert fn (set (map fst es))"
  using dom_update [of fn v es] by auto

lemma loop_inv_step:
  assumes "loop_inv L d w0 sc" and "candidate_effect L d sc sc'"
  shows "loop_inv L d w0 sc'"
  using assms(2) unfolding candidate_effect_def
proof (elim disjE exE conjE)
  assume "sc_saved_files sc' = sc_saved_files sc" "sc_saved sc' = sc_saved sc"
    "w_fs (sc_world sc') = w_fs (sc_world sc)" "w_writes (sc_world sc') = w_writes (sc_world sc)"
  with assms(1) show ?thesis
    by (simp add: loop_inv_def)
next
  fix fn c entry es
  assume doc: "is_document_name L fn"
    and files: "sc_saved_files sc' = sc_saved_files sc @ [entry]"
    and saved: "sc_saved sc' = sc_saved sc + 1"
    and es: "w_fs (sc_world sc) d = Some (Directory es)"
    and fs': "w_fs (sc_world sc') = (w_fs (sc_world sc))(d \<mapsto> Directory (AList.update fn (RegFile c) es))"
    and wr: "w_writes (sc_world sc') = w_writes (sc_world sc) @ [(d, fn)]"
  from assms(1) obtain ws where ws: "w_writes (sc_world sc) = w_writes w0 @ ws"
    "length ws = length (sc_saved_files sc)" "\<forall>p\<in>set ws. is_document_name L (snd p)"
    unfolding loop_inv_def by blast
  have 1: "sc_saved sc' = int (length (sc_saved_files sc'))"
    using assms(1) files saved by (simp add: loop_inv_def)
  have 2: "\<exists>ws'. w_writes (sc_world sc') = w_writes w0 @ ws' \<and>
            length ws' = length (sc_saved_files sc') \<and>
            (\<forall>p\<in>set ws'. is_document_name L (snd p))"
    by (rule exI [of _ "ws @ [(d, fn)]"]) (use ws wr files doc in auto)
  have 3: "\<exists>es'. w_fs (sc_world sc') d = Some (Directory es') \<and>
            (sc_saved_files sc' \<noteq> [] \<longrightarrow>
               (\<exists>fn. fn \<in> set (map fst es') \<and> is_regfile es' fn \<and> is_document_name L fn))"
    apply (rule exI [of _ "AList.update fn (RegFile c) es"])
    using fs' doc is_regfile_update_same [of fn c es] keys_update [of fn "RegFile c" es]
    by auto
  from 1 2 3 show ?thesis
    unfolding loop_inv_def by blast
qed

lemma candidate_effect_saved:
  "candidate_effect L d sc sc' \<Longrightarrow> sc_saved sc' \<le> sc_saved sc + 1"
  unfolding candidate_effect_def by auto

lemma candidates_loop_inv:
  "loop_inv L d w0 sc \<Longrightarrow> loop_inv L d w0 (candidates_loop L E d m cands sc)"
  by (induction cands arbitrary: sc) (auto intro: loop_inv_step process_candidate_effect)

lemma candidates_loop_budget:
  "sc_saved sc \<le> max 0 m \<Longrightarrow> sc_saved (candidates_loop L E d m cands sc) \<le> max 0 m"
proof (induction cands arbitrary: sc)
  case Nil
  then show ?case by simp
next
  case (Cons mp rest)
  show ?case
  proof (cases "m \<le> sc_saved sc")
    case True
    with Cons.prems show ?thesis by simp
  next
    case False
    have "sc_saved (process_candidate L E d mp sc) \<le> sc_saved sc + 1"
      using process_candidate_effect by (rule candidate_effect_saved)
    with False have "sc_saved (process_candidate L E d mp sc) \<le> max 0 m"
      by simp
    from Cons.IH [OF this] False show ?thesis by simp
  qed
qed

text \<open>What the completed run returns and leaves behind.\<close>

lemma scrape_site_props:
  assumes dir: "w_fs w d = Some (Directory es0)"
    and run: "scrape_site L E d r base m h w = (res, w')"
  shows "\<exists>files errs.
           res = fresh_result r (files \<noteq> []) files errs \<and>
           int (length files) \<le> max 0 m \<and>
           length (documents_written w w') = length files \<and>
           (write_error E (path_join d (str ''metadata.json'')) = None \<longrightarrow>
              file_at (w_fs w') d (str ''metadata.json'') =
                Some (metadata_doc r base (clock_iso E) (files \<noteq> []) files errs)) \<and>
           (files \<noteq> [] \<longrightarrow>
              (\<exists>es fn. w_fs w' d = Some (Directory es) \<and> fn \<in> set (map fst es) \<and>
                       is_regfile es fn \<and> is_document_name L fn))"
proof -
  define sc0 where "sc0 = \<lparr> sc_saved_files = [], sc_errors = [], sc_saved = 0,
                            sc_seen_urls = {}, sc_world = w \<rparr>"
  define sc where "sc = candidates_loop L E d m (all_candidates L base h) sc0"
  have "loop_inv L d w sc0"
    using dir by (simp add: loop_inv_def sc0_def)
  then have inv: "loop_inv L d w sc"
    unfolding sc_def by (rule candidates_loop_inv)
  have "sc_saved sc0 \<le> max 0 m" by (simp add: sc0_def)
  then have budget: "sc_saved sc \<le> max 0 m"
    unfolding sc_def by (rule candidates_loop_budget)
  from inv obtain ws es where
    saved: "sc_saved sc = int (length (sc_saved_files sc))"
    and ws: "w_writes (sc_world sc) = w_writes w @ ws" "length ws = length (sc_saved_files sc)"
      "\<forall>p\<in>set ws. is_document_name L (snd p)"
    and es: "w_fs (sc_world sc) d = Some (Directory es)"
      "sc_saved_files sc \<noteq> [] \<longrightarrow>
         (\<exists>fn. fn \<in> set (map fst es) \<and> is_regfile es fn \<and> is_document_name L fn)"
    unfolding loop_inv_def by blast
  have found: "(0 < sc_saved sc) = (sc_saved_files sc \<noteq> [])"
    using saved by auto
  have docs: "filter (\<lambda>(d, fn). fn \<noteq> str ''metadata.json'') ws = ws"
    using ws(3) by (auto simp: filter_id_conv is_document_name_def)
  let ?doc = "metadata_doc r base (clock_iso E) (sc_saved_files sc \<noteq> []) (sc_saved_files sc) (sc_errors sc)"
  show ?thesis
  proof (cases "write_file E (sc_world sc) d (str ''metadata.json'') ?doc")
    case (Inl e)
    then have we: "write_error E (path_join d (str ''metadata.json'')) \<noteq> None"
      using es(1) by (auto simp: write_file_def split: option.splits)
    from Inl have res: "res = fresh_result r (sc_saved_files sc \<noteq> []) (sc_saved_files sc)
                         (sc_errors sc @ [str ''meta_write_failed:'' @ e])"
      and w': "w' = sc_world sc"
      using run by (simp_all add: scrape_site_def Let_def sc_def [symmetric] sc0_def [symmetric] found)
    have "length (documents_written w w') = length (sc_saved_files sc)"
      using ws docs by (simp add: documents_written_def w')
    with res w' we es budget saved show ?thesis
      by (intro exI [of _ "sc_saved_files sc"] exI [of _ "sc_errors sc @ [str ''meta_write_failed:'' @ e]"])
         auto
  next
    case (Inr w2)
    from write_file_Inr [OF Inr] have w2: "w2 = (sc_world sc)\<lparr> w_fs := (w_fs (sc_world sc))(d \<mapsto>
                     Directory (AList.update (str ''metadata.json'') (RegFile ?doc) es)),
                   w_writes := w_writes (sc_world sc) @ [(d, str ''metadata.json'')] \<rparr>"
      using es(1) by auto
    from Inr have res: "res = fresh_result r (sc_saved_files sc \<noteq> []) (sc_saved_files sc) (sc_errors sc)"
      and w': "w' = w2"
      using run by (simp_all add: scrape_site_def Let_def sc_def [symmetric] sc0_def [symmetric] found)
    have dw: "length (documents_written w w') = length (sc_saved_files sc)"
      using ws docs by (simp add: documents_written_def w' w2)
    have meta: "file_at (w_fs w') d (str ''metadata.json'') = Some ?doc"
      by (simp add: file_at_def w' w2 update_conv')
    have keep: "sc_saved_files sc \<noteq> [] \<longrightarrow>
              (\<exists>es' fn. w_fs w' d = Some (Directory es') \<and> fn \<in> set (map fst es') \<and>
                       is_regfile es' fn \<and> is_document_name L fn)"
    proof
      assume "sc_saved_files sc \<noteq> []"
      with es(2) obtain fn where fn: "fn \<in> set (map fst es)" "is_regfile es fn" "is_document_name L fn"
        by blast
      then have ne: "fn \<noteq> str ''metadata.json''"
        by (simp add: is_document_name_def)
      show "\<exists>es' fn. w_fs w' d = Some (Directory es') \<and> fn \<in> set (map fst es') \<and>
                       is_regfile es' fn \<and> is_document_name L fn"
        apply (rule exI [of _ "AList.update (str ''metadata.json'') (RegFile ?doc) es"])
        apply (rule exI [of _ fn])
        using fn ne keys_update [of "str ''metadata.json''" "RegFile ?doc" es]
          is_regfile_update_other [OF ne, of "RegFile ?doc" es]
        by (simp add: w' w2)
    qed
    from res budget saved dw meta keep show ?thesis
      by (intro exI [of _ "sc_saved_files sc"] exI [of _ "sc_errors sc"]) auto
  qed
qed

section \<open>Properties of the site processor\<close>

lemma ensure_dir_Inr:
  assumes "ensure_dir E w d = Inr w1"
  shows "(\<exists>es. w_fs w1 d = Some (Directory es)) \<and> w_writes w1 = w_writes w"
  using assms by (auto simp: ensure_dir_def split: if_splits option.splits fsnode.splits)

lemma filter_drop_single: "\<not> P x \<Longrightarrow> filter P (drop k [x]) = []"
  by (cases k) simp_all

lemma write_early_metadata_props:
  assumes "w_fs w d = Some (Directory es)"
  shows "documents_written w0 (write_early_metadata E w d r base errs) = documents_written w0 w"
    and "write_error E (path_join d (str ''metadata.json'')) = None \<Longrightarrow>
         file_at (w_fs (write_early_metadata E w d r base errs)) d (str ''metadata.json'') =
           Some (metadata_doc r base (clock_iso E) False [] errs)"
  using assms
  by (auto simp: write_early_metadata_def write_file_def documents_written_def file_at_def
                 update_conv' filter_drop_single split: option.splits)

text \<open>The outcomes of a run that returns.\<close>

lemma process_restaurant_cases:
  assumes run: "process_restaurant L E root r m w = Inr (res, w')"
  obtains
    (resumed) "existing_menu_info L (w_fs w) root r = Some res" "w' = w"
  | (no_website) "existing_menu_info L (w_fs w) root r = None"
      "r_website r = None \<or> r_website r = Some []"
      "res = fresh_result r False [] [str ''no_website'']" "w' = w"
  | (early) website w1 es errs where
      "existing_menu_info L (w_fs w) root r = None"
      "r_website r = Some website" "website \<noteq> []"
      "w_fs w1 (fst (restaurant_output_dir root r)) = Some (Directory es)"
      "w_writes w1 = w_writes w"
      "res = fresh_result r False [] errs"
      "w' = write_early_metadata E w1 (fst (restaurant_output_dir root r)) r
              (normalize_url L website) errs"
  | (completed) website w1 es h where
      "existing_menu_info L (w_fs w) root r = None"
      "r_website r = Some website" "website \<noteq> []"
      "w_fs w1 (fst (restaurant_output_dir root r)) = Some (Directory es)"
      "w_writes w1 = w_writes w"
      "scrape_site L E (fst (restaurant_output_dir root r)) r (normalize_url L website) m h w1 =
         (res, w')"
proof (cases "existing_menu_info L (w_fs w) root r")
  case (Some existing)
  with run have "existing = res" "w' = w"
    by (simp_all add: process_restaurant_def)
  with Some resumed show ?thesis by simp
next
  case None
  show ?thesis
  proof (cases "r_website r = None \<or> r_website r = Some []")
    case True
    with None run have "res = fresh_result r False [] [str ''no_website'']" "w' = w"
      by (auto simp: process_restaurant_def)
    with None True no_website show ?thesis by simp
  next
    case False
    then obtain website where web: "r_website r = Some website" "website \<noteq> []"
      by (cases "r_website r") auto
    obtain d slug where od: "restaurant_output_dir root r = (d, slug)"
      by (cases "restaurant_output_dir root r")
    let ?base = "normalize_url L website"
    from run None web od obtain w0 where ed: "ensure_dir E w d = Inr w0"
      by (cases "ensure_dir E w d") (auto simp: process_restaurant_def Let_def)
    from ensure_dir_Inr [OF ed] obtain es0 where
      es0: "w_fs w0 d = Some (Directory es0)" and wr0: "w_writes w0 = w_writes w"
      by blast
    obtain rp w1 where fr: "fetch_robots L E w0 ?base = (rp, w1)"
      by (cases "fetch_robots L E w0 ?base")
    have w1: "w_fs w1 d = Some (Directory es0)" "w_writes w1 = w_writes w"
      using fetch_robots_world [of L E w0 ?base] fr es0 wr0 by auto
    show ?thesis
    proof (cases "rp ?base")
      case blocked: False
      with run None web od ed fr have
        "res = fresh_result r False [] [str ''blocked_by_robots_home'']"
        "w' = write_early_metadata E w1 d r ?base [str ''blocked_by_robots_home'']"
        by (simp_all add: process_restaurant_def Let_def)
      with None web w1 od early [of website w1 es0] show ?thesis by simp
    next
      case allowed: True
      obtain html ctype status w2 where ft: "fetch_text L E w1 ?base = ((html, ctype, status), w2)"
        by (cases "fetch_text L E w1 ?base") auto
      have w2: "w_fs w2 d = Some (Directory es0)" "w_writes w2 = w_writes w"
        using fetch_text_world [of L E w1 ?base] ft w1 by auto
      show ?thesis
      proof (cases html)
        case unavailable: None
        with run None web od ed fr allowed ft have
          "res = fresh_result r False []
                   [str ''homepage_unavailable:'' @ fmt_opt_int status @ str '':'' @ fmt_opt_str ctype]"
          "w' = write_early_metadata E w2 d r ?base
                   [str ''homepage_unavailable:'' @ fmt_opt_int status @ str '':'' @ fmt_opt_str ctype]"
          by (simp_all add: process_restaurant_def Let_def)
        with None web w2 od early [of website w2 es0] show ?thesis by simp
      next
        case (Some h)
        with run None web od ed fr allowed ft have
          "scrape_site L E d r ?base m h w2 = (res, w')"
          by (simp add: process_restaurant_def Let_def)
        with None web w2 od completed [of website w2 es0 h] show ?thesis by simp
      qed
    qed
  qed
qed

lemma fresh_result_fields:
  "res_saved_files (fresh_result r found files errs) = JList files"
  "res_found (fresh_result r found files errs) = found"
  "res_errors (fresh_result r found files errs) = map JStr errs"
  "\<not> res_skipped (fresh_result r found files errs)"
  by (simp_all add: fresh_result_def)

text \<open>
  C1 (amended). For every result of a run of \<open>process_restaurant\<close> that is not resumed
  from an existing output directory, with any page budget, \<open>saved_files\<close> is a list of at
  most \<open>max(0, max_pages_per_site)\<close> entries. (A resumed result lists what the directory or
  its metadata holds, whatever the budget.)
\<close>

theorem saved_files_within_budget:
  assumes "process_restaurant L E out_root r max_pages_per_site w = Inr (res, w')"
    and "\<not> res_skipped res"
  shows "\<exists>files. res_saved_files res = JList files \<and>
                 int (length files) \<le> max 0 max_pages_per_site"
  using assms(1)
proof (cases rule: process_restaurant_cases)
  case resumed
  with assms(2) existing_menu_info_skipped show ?thesis by blast
next
  case no_website
  then show ?thesis by (simp add: fresh_result_fields)
next
  case (early website w1 es errs)
  then show ?thesis by (simp add: fresh_result_fields)
next
  case (completed website w1 es h)
  from scrape_site_props [OF completed(4) completed(6)] show ?thesis
    by (auto simp: fresh_result_fields)
qed


text \<open>
  C4 (amended). For every run that is not resumed, of a restaurant that has a website,
  whatever the outcome (blocked by robots, homepage unavailable, or completed with or
  without saved documents): when the write of \<open>metadata.json\<close> does not fail, the file
  holds the record with the restaurant's uuid and name, the normalized website, the
  timestamp, and the found flag, saved documents and error tags of the result. (For a
  restaurant without a website nothing is written.)
\<close>

theorem metadata_written_with_website:
  assumes "process_restaurant L E out_root r max_pages_per_site w = Inr (res, w')"
    and "\<not> res_skipped res"
    and "r_website r = Some website" and "website \<noteq> []"
    and "write_error E (path_join (fst (restaurant_output_dir out_root r)) (str ''metadata.json'')) = None"
  shows "\<exists>files errs.
           res_saved_files res = JList files \<and> res_errors res = map JStr errs \<and>
           file_at (w_fs w') (fst (restaurant_output_dir out_root r)) (str ''metadata.json'') =
             Some (metadata_doc r (normalize_url L website) (clock_iso E) (res_found res) files errs)"
  using assms(1)
proof (cases rule: process_restaurant_cases)
  case resumed
  with assms(2) existing_menu_info_skipped show ?thesis by blast
next
  case no_website
  with assms(3,4) show ?thesis by auto
next
  case (early website' w1 es errs)
  with assms(3) have "website' = website" by simp
  with early write_early_metadata_props(2) [OF early(4) assms(5), of r "normalize_url L website" errs]
  show ?thesis
    by (intro exI [of _ "[]"] exI [of _ errs]) (simp add: fresh_result_fields)
next
  case (completed website' w1 es h)
  with assms(3) have "website' = website" by simp
  with scrape_site_props [OF completed(4) completed(6)] assms(5) show ?thesis
    by (auto simp: fresh_result_fields)
qed

lemma has_document_resumes:
  assumes dir: "fs (fst (restaurant_output_dir root r)) = Some (Directory es)"
    and doc: "fn \<in> set (map fst es)" "is_regfile es fn" "is_document_name L fn"
  shows "\<exists>res. existing_menu_info L fs root r = Some res"
proof -
  obtain d slug where od: "restaurant_output_dir root r = (d, slug)"
    by (cases "restaurant_output_dir root r")
  have "scanned_entry L d fn \<in> set (scan_directory L d es)"
    using doc by (auto simp: scan_directory_def is_document_name_def)
  then have "scan_directory L d es \<noteq> []"
    by auto
  then show ?thesis
    using dir od
    by (cases "case map_of es (str ''metadata.json'') of
                 Some (RegFile c) \<Rightarrow> result_from_metadata r slug c | _ \<Rightarrow> None")
       (simp_all add: existing_menu_info_def Let_def)
qed

lemma resumed_run:
  assumes "existing_menu_info L (w_fs w) root r = Some res"
  shows "process_restaurant L E root r m w = Inr (res, w) \<and> res_skipped res"
  using assms existing_menu_info_skipped [OF assms] by (simp add: process_restaurant_def)

text \<open>
  C3 (amended). When a run of \<open>process_restaurant\<close> has returned \<open>found = true\<close>, a
  second run for the same restaurant on the file system the first run left, with any
  network, budget, robots cache and logs, returns a result with \<open>skipped = true\<close> and
  leaves the world as it is: no request is issued and nothing is written.
\<close>

theorem second_run_skips:
  assumes first: "process_restaurant L E out_root r max_pages_per_site w = Inr (res, w1)"
    and found: "res_found res"
    and same: "w_fs w2 = w_fs w1"
  shows "\<exists>res2. process_restaurant L E2 out_root r max_pages2 w2 = Inr (res2, w2) \<and>
                res_skipped res2"
  using first
proof (cases rule: process_restaurant_cases)
  case resumed
  with same have "existing_menu_info L (w_fs w2) out_root r = Some res" by simp
  from resumed_run [OF this] show ?thesis by blast
next
  case no_website
  with found show ?thesis by (simp add: fresh_result_fields)
next
  case (early website w0 es errs)
  with found show ?thesis by (simp add: fresh_result_fields)
next
  case (completed website w0 es h)
  from scrape_site_props [OF completed(4) completed(6)] found
  obtain es' fn where "w_fs w1 (fst (restaurant_output_dir out_root r)) = Some (Directory es')"
    "fn \<in> set (map fst es')" "is_regfile es' fn" "is_document_name L fn"
    by (auto simp: fresh_result_fields)
  with same have "\<exists>res2. existing_menu_info L (w_fs w2) out_root r = Some res2"
    using has_document_resumes [of "w_fs w2" out_root r es' fn L] by simp
  then obtain res2 where "existing_menu_info L (w_fs w2) out_root r = Some res2" ..
  from resumed_run [OF this] show ?thesis by blast
qed

text \<open>
  C2 (amended). In one iteration of the candidate loop, a guessed candidate whose
  response is not a PDF, whose host is not an external menu host and whose fetched content
  is not menu-like is not saved, whatever its URL path: the saved entries, the counter,
  the file system and the log of writes stay as they are.
\<close>

theorem guessed_candidate_gate:
  assumes guessed: "mp_guessed mp"
    and fetched: "fetch_text L E (snd (fetch_robots L E (sc_world sc) (mp_url mp))) (mp_url mp) =
                    ((Some body, ctype2, status2), w2)"
    and not_menu: "\<not> is_menu_like L body"
    and not_pdf: "\<not> is_pdf_ctype ctype2"
    and not_external:
      "\<not> host_matches_external L (case url_hostname L (mp_url mp) of None \<Rightarrow> [] | Some h \<Rightarrow> h)"
  shows "sc_saved_files (process_candidate L E out_dir mp sc) = sc_saved_files sc \<and>
         sc_saved (process_candidate L E out_dir mp sc) = sc_saved sc \<and>
         w_writes (sc_world (process_candidate L E out_dir mp sc)) = w_writes (sc_world sc) \<and>
         w_fs (sc_world (process_candidate L E out_dir mp sc)) = w_fs (sc_world sc)"
proof (cases "mp_url mp \<in> sc_seen_urls sc")
  case True
  then show ?thesis by (simp add: process_candidate_def)
next
  case False
  obtain rp w1 where fr: "fetch_robots L E (sc_world sc) (mp_url mp) = (rp, w1)"
    by (cases "fetch_robots L E (sc_world sc) (mp_url mp)")
  have w1: "w_fs w1 = w_fs (sc_world sc)" "w_writes w1 = w_writes (sc_world sc)"
    using fetch_robots_world [of L E "sc_world sc" "mp_url mp"] fr by auto
  have ft: "fetch_text L E w1 (mp_url mp) = ((Some body, ctype2, status2), w2)"
    using fetched fr by simp
  have w2: "w_fs w2 = w_fs (sc_world sc)" "w_writes w2 = w_writes (sc_world sc)"
    using fetch_text_world [of L E w1 "mp_url mp"] ft w1 by auto
  show ?thesis
    using False fr ft w1 w2 guessed not_menu not_pdf not_external
    by (simp add: process_candidate_def classify_and_save_def Let_def)
qed

section \<open>Runs on the concrete sites\<close>

lemma result_of_Some: "result_of x = Some res \<Longrightarrow> \<exists>w. x = Inr (res, w)"
  by (auto simp: result_of_def split: sum.splits)

text \<open>The run of \<open>cafe\<close> on an empty output root with a budget of one page.\<close>

lemma cafe_run:
  "map_option (\<lambda>res. (res_skipped res, res_found res, num_files res))
     (result_of (process_restaurant simple_lib cafe_net (str ''menus'') cafe 1 empty_world)) =
   Some (False, True, 1)"
  by code_simp

lemma cafe_run_returns:
  "\<exists>res w'. process_restaurant simple_lib cafe_net (str ''menus'') cafe 1 empty_world = Inr (res, w') \<and>
            \<not> res_skipped res \<and> res_found res \<and> num_files res = 1"
proof -
  from cafe_run obtain res where
    "result_of (process_restaurant simple_lib cafe_net (str ''menus'') cafe 1 empty_world) = Some res"
    "\<not> res_skipped res" "res_found res" "num_files res = 1"
    by auto
  then show ?thesis
    using result_of_Some by blast
qed

text \<open>The fresh run saves one page, within its budget of one.\<close>

theorem saved_files_within_budget_witness:
  "\<exists>res w' files.
     process_restaurant simple_lib cafe_net (str ''menus'') cafe 1 empty_world = Inr (res, w') \<and>
     num_files res = 1 \<and> res_saved_files res = JList files \<and> int (length files) \<le> max 0 1"
proof -
  from cafe_run_returns obtain res w' where
    run: "process_restaurant simple_lib cafe_net (str ''menus'') cafe 1 empty_world = Inr (res, w')"
    and fresh: "\<not> res_skipped res" and one: "num_files res = 1"
    by blast
  from saved_files_within_budget [OF run fresh] run one show ?thesis
    by blast
qed

text \<open>
  C1 as stated fails on resume: with a budget of one page, the run on the stocked
  directory is resumed and its result lists the two pages found there.
\<close>

theorem budget_exceeded_on_resume:
  "map_option res_skipped
     (result_of (process_restaurant simple_lib cafe_net (str ''menus'') cafe 1 stocked_world)) =
     Some True \<and>
   map_option num_files
     (result_of (process_restaurant simple_lib cafe_net (str ''menus'') cafe 1 stocked_world)) =
     Some 2"
  by code_simp


theorem metadata_written_with_website_witness:
  "\<exists>res w' files errs.
     process_restaurant simple_lib cafe_net (str ''menus'') cafe 1 empty_world = Inr (res, w') \<and>
     file_at (w_fs w') (str ''menus/cafe'') (str ''metadata.json'') =
       Some (metadata_doc cafe (str ''https://cafe.example'') (clock_iso cafe_net) True files errs)"
proof -
  from cafe_run_returns obtain res w' where
    run: "process_restaurant simple_lib cafe_net (str ''menus'') cafe 1 empty_world = Inr (res, w')"
    and fresh: "\<not> res_skipped res" and found: "res_found res"
    by blast
  have web: "r_website cafe = Some (str ''https://cafe.example'')" "str ''https://cafe.example'' \<noteq> []"
    by code_simp+
  have ok: "write_error cafe_net
              (path_join (fst (restaurant_output_dir (str ''menus'') cafe)) (str ''metadata.json'')) = None"
    by code_simp
  have dir: "fst (restaurant_output_dir (str ''menus'') cafe) = str ''menus/cafe''"
    and base: "normalize_url simple_lib (str ''https://cafe.example'') = str ''https://cafe.example''"
    by code_simp+
  from metadata_written_with_website [OF run fresh web ok] run found show ?thesis
    unfolding dir base by auto
qed

text \<open>
  C4 as stated fails without a website: the run returns the tag \<open>no_website\<close> and writes
  nothing.
\<close>

theorem no_metadata_without_website:
  "result_of (process_restaurant simple_lib cafe_net (str ''menus'') nosite 5 empty_world) =
     Some (fresh_result nosite False [] [str ''no_website'']) \<and>
   map_option w_writes
     (world_of (process_restaurant simple_lib cafe_net (str ''menus'') nosite 5 empty_world)) = Some []"
  by code_simp

theorem second_run_skips_witness:
  "\<exists>res w1 res2.
     process_restaurant simple_lib cafe_net (str ''menus'') cafe 1 empty_world = Inr (res, w1) \<and>
     res_found res \<and>
     process_restaurant simple_lib offline_net (str ''menus'') cafe 5 w1 = Inr (res2, w1) \<and>
     res_skipped res2"
proof -
  from cafe_run_returns obtain res w1 where
    run: "process_restaurant simple_lib cafe_net (str ''menus'') cafe 1 empty_world = Inr (res, w1)"
    and found: "res_found res"
    by blast
  from second_run_skips [OF run found refl, of offline_net 5] run found show ?thesis
    by blast
qed

text \<open>
  C3 as stated fails when the first run saved nothing: with the network down the first
  run ends with the homepage unavailable, and the second run, on the directory the first
  one left, is not skipped and requests the homepage again.
\<close>

theorem second_run_fetches_again:
  "map_option res_skipped
     (result_of (second_run simple_lib offline_net (str ''menus'') cafe 5
        (process_restaurant simple_lib offline_net (str ''menus'') cafe 5 empty_world))) = Some False \<and>
   map_option w_requests
     (world_of (process_restaurant simple_lib offline_net (str ''menus'') cafe 5 empty_world)) =
     Some [str ''https://cafe.example/robots.txt'', str ''https://cafe.example''] \<and>
   map_option w_requests
     (world_of (second_run simple_lib offline_net (str ''menus'') cafe 5
        (process_restaurant simple_lib offline_net (str ''menus'') cafe 5 empty_world))) =
     Some [str ''https://cafe.example/robots.txt'', str ''https://cafe.example'',
           str ''https://cafe.example'']"
  by code_simp

theorem guessed_candidate_gate_witness:
  "mp_guessed food_guess \<and> \<not> is_menu_like simple_lib (str ''Fresh food daily'') \<and>
   sc_saved_files (process_candidate simple_lib cafe_net (str ''menus/cafe'') food_guess
                     (start_scrape empty_world)) = [] \<and>
   sc_saved (process_candidate simple_lib cafe_net (str ''menus/cafe'') food_guess
               (start_scrape empty_world)) = 0"
proof -
  let ?sc = "start_scrape empty_world"
  let ?ft = "fetch_text simple_lib cafe_net
               (snd (fetch_robots simple_lib cafe_net (sc_world ?sc) (mp_url food_guess)))
               (mp_url food_guess)"
  have guessed: "mp_guessed food_guess"
    by code_simp
  have "fst ?ft = (Some (str ''Fresh food daily''), Some (str ''text/html''), Some 200)"
    by code_simp
  then have fetched: "?ft = ((Some (str ''Fresh food daily''), Some (str ''text/html''), Some 200), snd ?ft)"
    by (metis prod.collapse)
  have not_menu: "\<not> is_menu_like simple_lib (str ''Fresh food daily'')"
    by code_simp
  have not_pdf: "\<not> is_pdf_ctype (Some (str ''text/html''))"
    by code_simp
  have not_external:
    "\<not> host_matches_external simple_lib
         (case url_hostname simple_lib (mp_url food_guess) of None \<Rightarrow> [] | Some h \<Rightarrow> h)"
    by code_simp
  have start: "sc_saved_files ?sc = []" "sc_saved ?sc = 0"
    by (simp_all add: start_scrape_def)
  from guessed_candidate_gate [OF guessed fetched not_menu not_pdf not_external, of "str ''menus/cafe''"]
    guessed not_menu start
  show ?thesis by simp
qed

text \<open>
  C2 as stated fails on an external menu host: the homepage of \<open>bistro\<close> has no links, so
  every candidate is guessed; the page at \<open>/menu\<close> is not menu-like, and it is saved.
\<close>

theorem guessed_candidate_saved_on_external_host:
  "map_option res_saved_files
     (result_of (process_restaurant simple_lib bistro_net (str ''menus'') bistro 1 empty_world)) =
   Some (JList [saved_entry simple_lib (str ''https://bistro.square.site/menu'')
                  (str ''menus/bistro/menu.html'') (Some 200) (Some (str ''text/html'')) True]) \<and>
   \<not> is_menu_like simple_lib (str ''Opening soon'') \<and>
   discover_menu_links simple_lib (str ''https://bistro.square.site'') (str ''Welcome to Bistro'') = []"
  by code_simp

theorem one_candidate_per_url_with_max_score_witness:
  "mp_score (hd (discover_menu_links twin_lib (str ''https://cafe.example'') twin_html)) =
     Max (set (link_scores twin_lib (str ''https://cafe.example'') (soup_anchors twin_lib twin_html)
                 (str ''https://cafe.example/menu''))) \<and>
   link_scores twin_lib (str ''https://cafe.example'') (soup_anchors twin_lib twin_html)
     (str ''https://cafe.example/menu'') = [6, 9]"
proof -
  let ?out = "discover_menu_links twin_lib (str ''https://cafe.example'') twin_html"
  have out: "map mp_url ?out = [str ''https://cafe.example/menu'', str ''https://cafe.example'']"
    by code_simp
  then have hd_in: "hd ?out \<in> set ?out" and url: "mp_url (hd ?out) = str ''https://cafe.example/menu''"
    by (cases ?out; simp)+
  have other: "mp_url (hd ?out) \<noteq> str ''https://cafe.example''"
    unfolding url by code_simp
  have scores: "link_scores twin_lib (str ''https://cafe.example'') (soup_anchors twin_lib twin_html)
     (str ''https://cafe.example/menu'') = [6, 9]"
    by code_simp
  from one_candidate_per_url_with_max_score [of twin_lib "str ''https://cafe.example''" twin_html]
    hd_in other
  have "mp_score (hd ?out) =
          Max (set (link_scores twin_lib (str ''https://cafe.example'')
                      (soup_anchors twin_lib twin_html) (mp_url (hd ?out))))"
    by blast
  with url scores show ?thesis by simp
qed

text \<open>
  C8 as stated fails for the base URL of a menu-like homepage: both anchors of the page
  at \<open>/menu\<close> resolve to the page itself, with scores 6 and 9, and the one candidate for
  that URL is the injected one, with score 5.
\<close>

theorem homepage_score_replaces_link_scores:
  "discover_menu_links twin_lib (str ''https://cafe.example/menu'') twin_html =
     [homepage_page (str ''https://cafe.example/menu'')] \<and>
   mp_score (homepage_page (str ''https://cafe.example/menu'')) = 5 \<and>
   link_scores twin_lib (str ''https://cafe.example/menu'') (soup_anchors twin_lib twin_html)
     (str ''https://cafe.example/menu'') = [6, 9]"
  by code_simp

theorem homepage_candidate_injected_witness:
  "is_menu_like twin_lib twin_html \<and>
   homepage_page (str ''https://cafe.example'') \<in>
     set (discover_menu_links twin_lib (str ''https://cafe.example'') twin_html)"
proof -
  have menu: "is_menu_like twin_lib twin_html"
    by code_simp
  have few: "length (filter (\<lambda>m. mp_url m \<noteq> str ''https://cafe.example'' \<and> 5 \<le> mp_score m)
                    (link_candidates twin_lib (str ''https://cafe.example'') twin_html)) < 12"
    by code_simp
  from homepage_candidate_injected [OF menu, of "str ''https://cafe.example''"] few menu
  show ?thesis by blast
qed

text \<open>
  C9 as stated fails on a crowded homepage: the homepage is menu-like, its twelve links
  score 6 each, and the twelve candidates of the output leave no place for the homepage.
\<close>

theorem homepage_candidate_cut_off:
  "is_menu_like crowd_lib crowd_html \<and>
   map mp_score (discover_menu_links crowd_lib (str ''https://cafe.example'') crowd_html) =
     replicate 12 6 \<and>
   str ''https://cafe.example'' \<notin>
     set (map mp_url (discover_menu_links crowd_lib (str ''https://cafe.example'') crowd_html))"
  by code_simp

end
